theory Spec2Isabelle
  imports Complex_Main "HOL-Library.Signed_Division"
begin

unbundle bit_operations_syntax

section \<open>JavaScript values used by the game core\<close>

text \<open>
  The core of the slot machine lives in three classes: \<open>SymbolConfigurationService\<close>
  (the symbol catalog), \<open>SlotEngineService\<close> (bit decoding, reel generation, win
  evaluation) and \<open>CascadingReelsService\<close> (the cascade loop). Their methods are
  embedded below as functions; an exception of the source is the \<open>Inl\<close> branch of a sum.

  JavaScript numbers that hold integers (bit offsets, heights, indices) are \<open>int\<close> or
  \<open>nat\<close>, which is exact while every integer stays below \<open>2 ^ 53\<close> in magnitude. The
  numbers written in the tables of the source (payout multipliers, cascade multipliers)
  are \<open>rat\<close>, the value of the number. Amounts of money computed from the bet are
  \<open>number\<close>, the IEEE 754 binary64 values, with the rounding addition and
  multiplication of JavaScript. Strings are lists of 8-bit characters, read as the code
  units 0 to 255.
\<close>

datatype error = SyntaxError | RangeError | TypeError

text \<open>A grid cell: a symbol id, \<open>null\<close> (a removed symbol) or \<open>undefined\<close>.\<close>

datatype cell = Sym string | Null | Undefined

text \<open>The property key under which a cell value indexes an object.\<close>

fun propertyKey :: "cell \<Rightarrow> string" where
  "propertyKey (Sym s) = s"
| "propertyKey Null = ''null''"
| "propertyKey Undefined = ''undefined''"

subsection \<open>\<open>BigInt(string)\<close>\<close>

text \<open>
  \<open>BigInt(s)\<close> on a string follows the StringToBigInt grammar of ECMAScript: white space
  is trimmed at both ends; the empty string is 0; a literal is either \<open>0x\<close>, \<open>0o\<close> or
  \<open>0b\<close> (either case) followed by at least one digit of that radix, or decimal digits
  with an optional sign. Anything else raises SyntaxError.
\<close>

definition isStrWhiteSpaceChar :: "char \<Rightarrow> bool" where
  "isStrWhiteSpaceChar c = ((of_char c :: nat) \<in> {9, 10, 11, 12, 13, 32, 160})"

definition trimString :: "string \<Rightarrow> string" where
  "trimString s = rev (dropWhile isStrWhiteSpaceChar (rev (dropWhile isStrWhiteSpaceChar s)))"

definition digitValue :: "char \<Rightarrow> nat option" where
  "digitValue c =
     (let n = (of_char c :: nat)
      in if 48 \<le> n \<and> n \<le> 57 then Some (n - 48)
         else if 97 \<le> n \<and> n \<le> 102 then Some (n - 87)
         else if 65 \<le> n \<and> n \<le> 70 then Some (n - 55)
         else None)"

fun readDigits :: "nat \<Rightarrow> nat \<Rightarrow> string \<Rightarrow> nat option" where
  "readDigits radix acc [] = Some acc"
| "readDigits radix acc (c # cs) =
     (case digitValue c of
        None \<Rightarrow> None
      | Some d \<Rightarrow> if d < radix then readDigits radix (acc * radix + d) cs else None)"

definition digitsValue :: "nat \<Rightarrow> string \<Rightarrow> nat option" where
  "digitsValue radix ds = (if ds = [] then None else readDigits radix 0 ds)"

definition StringToBigInt :: "string \<Rightarrow> int option" where
  "StringToBigInt str =
     (let s = trimString str; p = take 2 s; ds = drop 2 s
      in if s = [] then Some 0
         else if p = ''0x'' \<or> p = ''0X'' then map_option int (digitsValue 16 ds)
         else if p = ''0o'' \<or> p = ''0O'' then map_option int (digitsValue 8 ds)
         else if p = ''0b'' \<or> p = ''0B'' then map_option int (digitsValue 2 ds)
         else if hd s = CHR ''+'' then map_option int (digitsValue 10 (tl s))
         else if hd s = CHR ''-'' then map_option (\<lambda>n. - int n) (digitsValue 10 (tl s))
         else map_option int (digitsValue 10 s))"

definition BigInt :: "string \<Rightarrow> error + int" where
  "BigInt str = (case StringToBigInt str of None \<Rightarrow> Inl SyntaxError | Some n \<Rightarrow> Inr n)"

subsection \<open>\<open>Number(bigint)\<close>\<close>

text \<open>
  \<open>Number(b)\<close> is the double nearest to \<open>b\<close>, ties to the even significand of 53 bits.
  \<open>ulpShift n\<close> is the number of low bits that a 53-bit significand cannot hold.
  From \<open>2 ^ 1024 - 2 ^ 970\<close> on the JavaScript value is \<open>Infinity\<close>, which \<open>int\<close> does
  not have: \<open>Number\<close> below is the JavaScript function for magnitudes under that bound,
  which \<open>extractBits\<close> stays under whenever \<open>bitCount\<close> is at most 1023.
\<close>

function ulpShift :: "nat \<Rightarrow> nat" where
  "ulpShift n = (if n < 2 ^ 53 then 0 else Suc (ulpShift (n div 2)))"
  by pat_completeness auto
termination
  by (relation "measure (\<lambda>n. n)") auto

declare ulpShift.simps [simp del]

definition roundToDouble :: "nat \<Rightarrow> nat" where
  "roundToDouble n =
     (let e = ulpShift n; q = n div 2 ^ e; r = n mod 2 ^ e
      in if 2 * r > 2 ^ e \<or> (2 * r = 2 ^ e \<and> odd q) then (q + 1) * 2 ^ e else q * 2 ^ e)"

definition Number :: "int \<Rightarrow> int" where
  "Number b = (if b < 0 then - int (roundToDouble (nat (- b))) else int (roundToDouble (nat b)))"

subsection \<open>BigInt shifts\<close>

text \<open>\<open>x << y\<close> and \<open>x >> y\<close> on BigInts: a negative count shifts the other way.\<close>

definition leftShift :: "int \<Rightarrow> int \<Rightarrow> int" where
  "leftShift x y = (if y < 0 then drop_bit (nat (- y)) x else push_bit (nat y) x)"

definition signedRightShift :: "int \<Rightarrow> int \<Rightarrow> int" where
  "signedRightShift x y = leftShift x (- y)"

subsection \<open>Number arithmetic\<close>

text \<open>
  A Number is an IEEE 754 binary64 value: a finite value, given by the rational number it
  denotes (\<open>Finite 0\<close> is \<open>+0\<close>), \<open>-0\<close>, an infinity or \<open>NaN\<close>. The finite values are
  the rationals \<open>n * 2 ^ e\<close> with an integer \<open>n\<close> of magnitude below \<open>2 ^ 53\<close> and
  \<open>-1074 \<le> e \<le> 971\<close>.
\<close>

datatype number = Finite rat | NegativeZero | PositiveInfinity | NegativeInfinity | NaN

definition isNegative :: "number \<Rightarrow> bool" where
  "isNegative x =
     (case x of Finite q \<Rightarrow> q < 0 | NegativeZero \<Rightarrow> True | NegativeInfinity \<Rightarrow> True | _ \<Rightarrow> False)"

definition isZero :: "number \<Rightarrow> bool" where
  "isZero x = (x = Finite 0 \<or> x = NegativeZero)"

definition isInfinite :: "number \<Rightarrow> bool" where
  "isInfinite x = (x = PositiveInfinity \<or> x = NegativeInfinity)"

definition mathematicalValue :: "number \<Rightarrow> rat" where
  "mathematicalValue x = (case x of Finite q \<Rightarrow> q | _ \<Rightarrow> 0)"

text \<open>
  \<open>ulp a\<close> is the distance between neighbouring binary64 values at the magnitude \<open>a\<close>:
  1 when \<open>2 ^ 52 \<le> a < 2 ^ 53\<close>, doubled for every further binary digit of \<open>a\<close>, and
  halved for every digit less, down to \<open>2 ^ -1074\<close>, the distance of the subnormal
  values.
\<close>

function ulpAbove :: "rat \<Rightarrow> rat" where
  "ulpAbove a = (if 2 ^ 53 \<le> a then 2 * ulpAbove (a / 2) else 1)"
  by pat_completeness auto
termination
proof (relation "measure (\<lambda>a. nat \<lfloor>a\<rfloor>)")
  show "wf (measure (\<lambda>a::rat. nat \<lfloor>a\<rfloor>))" by simp
next
  fix a :: rat assume a: "2 ^ 53 \<le> a"
  have "of_int \<lfloor>a / 2\<rfloor> \<le> a / 2" by (rule of_int_floor_le)
  also from a have "a / 2 \<le> a - 1" by simp
  also have "a - 1 < of_int \<lfloor>a\<rfloor>" by linarith
  finally have "\<lfloor>a / 2\<rfloor> < \<lfloor>a\<rfloor>" by simp
  moreover from a have "0 < \<lfloor>a\<rfloor>" by simp
  ultimately show "(a / 2, a) \<in> measure (\<lambda>a. nat \<lfloor>a\<rfloor>)" by simp
qed

function ulpBelow :: "rat \<Rightarrow> nat \<Rightarrow> rat" where
  "ulpBelow a k = (if a < 2 ^ 52 \<and> k < 1074 then ulpBelow (2 * a) (Suc k) / 2 else 1)"
  by pat_completeness auto
termination
  by (relation "measure (\<lambda>(a, k). 1074 - k)") auto

declare ulpAbove.simps [simp del] ulpBelow.simps [simp del]

definition ulp :: "rat \<Rightarrow> rat" where
  "ulp a = (if 2 ^ 53 \<le> a then ulpAbove a else ulpBelow a 0)"

text \<open>The nearest integer, a tie going to the even one.\<close>

definition roundHalfEven :: "rat \<Rightarrow> int" where
  "roundHalfEven m =
     (let f = \<lfloor>m\<rfloor>; d = m - of_int f
      in if d < 1 / 2 then f else if 1 / 2 < d then f + 1 else if even f then f else f + 1)"

text \<open>
  The Number value for a real number \<open>x\<close>: the binary64 value nearest to \<open>x\<close>, a tie
  going to the even significand; an infinity when that rounding reaches \<open>2 ^ 1024\<close>, and
  a zero with the sign of \<open>x\<close> when it gives 0. It is also the value of a decimal
  literal such as \<open>0.1\<close>.
\<close>

definition numberValueFor :: "rat \<Rightarrow> number" where
  "numberValueFor x =
     (let a = \<bar>x\<bar>; u = ulp a; v = of_int (roundHalfEven (a / u)) * u
      in if 2 ^ 1024 \<le> v then (if x < 0 then NegativeInfinity else PositiveInfinity)
         else if v = 0 then (if x < 0 then NegativeZero else Finite 0)
         else Finite (if x < 0 then - v else v))"

text \<open>
  \<open>x + y\<close> and \<open>x * y\<close> on Numbers, the IEEE 754 operations in the rounding mode to
  nearest, ties to even: \<open>NaN\<close> is passed on; the sum of the two infinities and the
  product of an infinity and a zero are \<open>NaN\<close>; \<open>-0 + -0\<close> is \<open>-0\<close> and every other sum
  that is exactly 0 is \<open>+0\<close>; a product is negative when exactly one factor is; every
  other result is the Number value for the exact result.
\<close>

definition numberAdd :: "number \<Rightarrow> number \<Rightarrow> number" where
  "numberAdd x y =
     (if x = NaN \<or> y = NaN then NaN
      else if isInfinite x \<and> isInfinite y \<and> x \<noteq> y then NaN
      else if isInfinite x then x
      else if isInfinite y then y
      else if x = NegativeZero \<and> y = NegativeZero then NegativeZero
      else numberValueFor (mathematicalValue x + mathematicalValue y))"

definition numberMultiply :: "number \<Rightarrow> number \<Rightarrow> number" where
  "numberMultiply x y =
     (if x = NaN \<or> y = NaN then NaN
      else if (isInfinite x \<and> isZero y) \<or> (isZero x \<and> isInfinite y) then NaN
      else if isInfinite x \<or> isInfinite y
        then (if isNegative x \<noteq> isNegative y then NegativeInfinity else PositiveInfinity)
      else if isZero x \<or> isZero y
        then (if isNegative x \<noteq> isNegative y then NegativeZero else Finite 0)
      else numberValueFor (mathematicalValue x * mathematicalValue y))"

section \<open>Random Decoder: \<open>SlotEngineService.extractBits\<close>\<close>

definition extractBits :: "string \<Rightarrow> int \<Rightarrow> int \<Rightarrow> error + int" where
  "extractBits vrfNumber startBit bitCount =
     (case BigInt vrfNumber of
        Inl e \<Rightarrow> Inl e
      | Inr vrfBigInt \<Rightarrow>
          (let mask = leftShift 1 bitCount - 1;
               extractedBits = signedRightShift vrfBigInt startBit AND mask
           in Inr (Number extractedBits)))"

text \<open>
  The format of a random value that the request handler lets through
  (\<open>/^0x[0-9a-fA-F]+$/\<close> in \<open>gameRoutes.js\<close>), and the unsigned integer it denotes.
\<close>

definition isHexDigit :: "char \<Rightarrow> bool" where
  "isHexDigit c = (digitValue c \<noteq> None)"

definition wellFormedHex :: "string \<Rightarrow> bool" where
  "wellFormedHex h = (take 2 h = ''0x'' \<and> drop 2 h \<noteq> [] \<and> list_all isHexDigit (drop 2 h))"

fun hexValue :: "nat \<Rightarrow> string \<Rightarrow> nat" where
  "hexValue acc [] = acc"
| "hexValue acc (c # cs) = hexValue (16 * acc + (case digitValue c of Some d \<Rightarrow> d | None \<Rightarrow> 0)) cs"

definition uint :: "string \<Rightarrow> int" where
  "uint h = int (hexValue 0 (drop 2 h))"

section \<open>Reel Generator\<close>

record reel =
  reelIndex :: nat
  height :: int
  symbols :: "cell list"

text \<open>The loop \<open>for (let i = 0; i < 6; i++)\<close> of \<open>generateReelConfiguration\<close>.\<close>

function generateReelLoop :: "string \<Rightarrow> nat \<Rightarrow> int \<Rightarrow> reel list \<Rightarrow> error + reel list" where
  "generateReelLoop vrfNumber i vrfIndex reels =
     (if i < 6 then
        (case extractBits vrfNumber vrfIndex 3 of
           Inl e \<Rightarrow> Inl e
         | Inr heightBits \<Rightarrow>
             (let reelHeight = 2 + (heightBits smod 6)
              in generateReelLoop vrfNumber (i + 1) (vrfIndex + 3)
                   (reels @ [\<lparr>reelIndex = i, height = reelHeight, symbols = []\<rparr>])))
      else Inr reels)"
  by pat_completeness auto
termination
  by (relation "measure (\<lambda>(vrfNumber, i, vrfIndex, reels). 6 - i)") auto

declare generateReelLoop.simps [simp del]

definition generateReelConfiguration :: "string \<Rightarrow> error + reel list" where
  "generateReelConfiguration vrfNumber = generateReelLoop vrfNumber 0 0 []"

text \<open>Membership tests on characters used in the statements about \<open>BigInt\<close>.\<close>

definition isDecimalDigit :: "char \<Rightarrow> bool" where
  "isDecimalDigit c = (c \<in> set ''0123456789'')"

definition isLiteralChar :: "char \<Rightarrow> bool" where
  "isLiteralChar c = (isHexDigit c \<or> c \<in> set ''xXoO+-'' \<or> isStrWhiteSpaceChar c)"

section \<open>Symbol Catalog: \<open>SymbolConfigurationService\<close>\<close>

text \<open>
  Of a symbol definition the game logic reads \<open>id\<close>, \<open>type\<close> and \<open>weight\<close>; the other
  fields (names, images, sounds) are presentation. \<open>this.symbols\<close> is an object whose
  keys are the symbol ids: an association list in insertion order, which is the order of
  \<open>Object.values\<close>. \<open>this.payoutTables\<close> maps an id to a table from run length to
  multiplier, \<open>this.specialBehaviors\<close> an id to its behaviour; these are the own
  properties of the three objects. Weights are integers, as all weights of the source
  are.
\<close>

record symbol_def =
  id_sym :: string
  type :: string
  weight :: int

record behavior =
  behaviorType :: string
  substitutes :: "string list"
  doesNotSubstitute :: "string list"

record catalog =
  symbolLibrary :: "(string \<times> symbol_def) list"
  payoutTables :: "string \<rightharpoonup> (nat \<rightharpoonup> rat)"
  specialBehaviors :: "string \<rightharpoonup> behavior"

definition regularSymbol :: "string \<Rightarrow> int \<Rightarrow> string \<times> symbol_def" where
  "regularSymbol i w = (i, \<lparr>id_sym = i, type = ''regular'', weight = w\<rparr>)"

definition initializeSymbolLibrary :: "(string \<times> symbol_def) list" where
  "initializeSymbolLibrary =
     [regularSymbol ''diamond_hands'' 45,
      regularSymbol ''crypto_wallet'' 40,
      regularSymbol ''blockchain_block'' 35,
      regularSymbol ''defi_token'' 30,
      regularSymbol ''nft_collectible'' 25,
      regularSymbol ''sol'' 22,
      regularSymbol ''eth'' 18,
      regularSymbol ''btc'' 15,
      (''wild'', \<lparr>id_sym = ''wild'', type = ''wild'', weight = 5\<rparr>),
      (''scatter'', \<lparr>id_sym = ''scatter'', type = ''scatter'', weight = 3\<rparr>),
      (''nft_character'', \<lparr>id_sym = ''nft_character'', type = ''nft_premium'', weight = 8\<rparr>)]"

definition payoutsBySize :: "rat \<Rightarrow> rat \<Rightarrow> rat \<Rightarrow> rat \<Rightarrow> (nat \<rightharpoonup> rat)" where
  "payoutsBySize p3 p4 p5 p6 = [3 \<mapsto> p3, 4 \<mapsto> p4, 5 \<mapsto> p5, 6 \<mapsto> p6]"

definition initializePayoutTables :: "string \<rightharpoonup> (nat \<rightharpoonup> rat)" where
  "initializePayoutTables =
     [''diamond_hands'' \<mapsto> payoutsBySize (1 / 2) (5 / 2) 10 50,
      ''crypto_wallet'' \<mapsto> payoutsBySize (3 / 4) (15 / 4) 15 75,
      ''blockchain_block'' \<mapsto> payoutsBySize 1 5 20 100,
      ''defi_token'' \<mapsto> payoutsBySize (3 / 2) (15 / 2) 30 150,
      ''nft_collectible'' \<mapsto> payoutsBySize 2 10 40 200,
      ''sol'' \<mapsto> payoutsBySize 3 15 60 300,
      ''eth'' \<mapsto> payoutsBySize 4 20 80 400,
      ''btc'' \<mapsto> payoutsBySize 5 25 100 500,
      ''nft_character'' \<mapsto> payoutsBySize (15 / 2) (75 / 2) 150 750,
      ''wild'' \<mapsto> payoutsBySize 0 0 0 0,
      ''scatter'' \<mapsto> payoutsBySize 0 0 0 0]"

definition initializeSpecialBehaviors :: "string \<rightharpoonup> behavior" where
  "initializeSpecialBehaviors =
     [''wild'' \<mapsto> \<lparr>behaviorType = ''substitution'',
                   substitutes = [''diamond_hands'', ''crypto_wallet'', ''blockchain_block'',
                                  ''defi_token'', ''nft_collectible'', ''sol'', ''eth'', ''btc'',
                                  ''nft_character''],
                   doesNotSubstitute = [''scatter'']\<rparr>,
      ''scatter'' \<mapsto> \<lparr>behaviorType = ''bonus_trigger'', substitutes = [], doesNotSubstitute = []\<rparr>,
      ''nft_character'' \<mapsto> \<lparr>behaviorType = ''premium_bonus'', substitutes = [], doesNotSubstitute = []\<rparr>]"

text \<open>The catalog that the constructor builds.\<close>

definition newCatalog :: catalog where
  "newCatalog = \<lparr>symbolLibrary = initializeSymbolLibrary,
                  payoutTables = initializePayoutTables,
                  specialBehaviors = initializeSpecialBehaviors\<rparr>"

text \<open>
  The three objects are object literals, so that indexing them also finds the properties
  of \<open>Object.prototype\<close>, whose values are functions or, for \<open>__proto__\<close>, the prototype
  itself. \<open>falsyAt obj key\<close> is the test \<open>!obj[key]\<close> on an object whose own values are
  objects: it holds when the key is neither an own key nor an inherited name.
\<close>

definition objectPrototypeNames :: "string list" where
  "objectPrototypeNames =
     [''constructor'', ''__defineGetter__'', ''__defineSetter__'', ''hasOwnProperty'',
      ''__lookupGetter__'', ''__lookupSetter__'', ''isPrototypeOf'', ''propertyIsEnumerable'',
      ''toString'', ''valueOf'', ''__proto__'', ''toLocaleString'']"

definition falsyAt :: "(string \<rightharpoonup> 'a) \<Rightarrow> string \<Rightarrow> bool" where
  "falsyAt obj key = (obj key = None \<and> key \<notin> set objectPrototypeNames)"

text \<open>
  \<open>getSymbol\<close>: the symbol definition stored under the id. For an inherited name that is
  not an own key the source returns the inherited value, which is not a symbol definition
  and has none of its fields; it is \<open>None\<close> here.
\<close>

definition getSymbol :: "catalog \<Rightarrow> string \<Rightarrow> symbol_def option" where
  "getSymbol cat symbolId = map_of (symbolLibrary cat) symbolId"

text \<open>
  \<open>getSymbolPayout\<close>: 0 when the symbol has no table or the table has no entry, or a
  zero entry, at \<open>count\<close>.
\<close>

definition getSymbolPayout :: "catalog \<Rightarrow> string \<Rightarrow> nat \<Rightarrow> rat" where
  "getSymbolPayout cat symbolId count =
     (case payoutTables cat symbolId of
        None \<Rightarrow> 0
      | Some payoutTable \<Rightarrow>
          (case payoutTable count of
             None \<Rightarrow> 0
           | Some p \<Rightarrow> if p = 0 then 0 else p))"

definition getSpecialBehavior :: "catalog \<Rightarrow> string \<Rightarrow> behavior option" where
  "getSpecialBehavior cat symbolId = specialBehaviors cat symbolId"

text \<open>
  \<open>canSubstitute\<close>: the target is a cell value; \<open>includes\<close> compares it with the ids of
  the lists, which are strings, so that \<open>null\<close> and \<open>undefined\<close> are in neither list.
\<close>

definition includesId :: "string list \<Rightarrow> cell \<Rightarrow> bool" where
  "includesId xs target = (case target of Sym t \<Rightarrow> t \<in> set xs | _ \<Rightarrow> False)"

definition canSubstitute :: "catalog \<Rightarrow> string \<Rightarrow> cell \<Rightarrow> bool" where
  "canSubstitute cat wildSymbol targetSymbol =
     (case getSpecialBehavior cat wildSymbol of
        None \<Rightarrow> False
      | Some behavior \<Rightarrow>
          if behaviorType behavior \<noteq> ''substitution'' then False
          else includesId (substitutes behavior) targetSymbol
               \<and> \<not> includesId (doesNotSubstitute behavior) targetSymbol)"

text \<open>
  \<open>createWeightedSymbolArray\<close>: each id \<open>weight\<close> times, in the order of the library. The
  engine calls it without options, that is with \<open>includeSpecial = true\<close> and nothing
  excluded.
\<close>

definition createWeightedSymbolArray :: "catalog \<Rightarrow> bool \<Rightarrow> string list \<Rightarrow> string list" where
  "createWeightedSymbolArray cat includeSpecial excludeSymbols =
     concat (map (\<lambda>symbol.
        if id_sym symbol \<in> set excludeSymbols then []
        else if \<not> includeSpecial \<and> type symbol \<noteq> ''regular'' then []
        else replicate (nat (weight symbol)) (id_sym symbol))
      (map snd (symbolLibrary cat)))"

subsection \<open>Administrative updates\<close>

text \<open>
  The update operations return the success flag and the catalog after the call. A value
  offered in a payout table is a number, given by its value, or something else;
  \<open>NaN\<close> and the infinities, which \<open>typeof\<close> also calls numbers, are outside the
  values of the tables here.
\<close>

datatype jsvalue = JNumber rat | JString string | JBoolean bool | JNull

text \<open>
  \<open>updateSymbolWeight\<close>: the guard is \<open>!this.symbols[symbolId] || newWeight < 0\<close>. Under
  an inherited name that is not an own key the assignment sets \<open>weight\<close> on the inherited
  object, which is no part of the catalog: the call returns \<open>true\<close> and the library is as
  before.
\<close>

definition setWeight :: "string \<Rightarrow> int \<Rightarrow> (string \<times> symbol_def) list \<Rightarrow> (string \<times> symbol_def) list" where
  "setWeight symbolId newWeight lib =
     map (\<lambda>(k, d). if k = symbolId then (k, d\<lparr>weight := newWeight\<rparr>) else (k, d)) lib"

definition updateSymbolWeight :: "catalog \<Rightarrow> string \<Rightarrow> int \<Rightarrow> bool \<times> catalog" where
  "updateSymbolWeight cat symbolId newWeight =
     (if falsyAt (map_of (symbolLibrary cat)) symbolId \<or> newWeight < 0 then (False, cat)
      else (True, cat\<lparr>symbolLibrary := setWeight symbolId newWeight (symbolLibrary cat)\<rparr>))"

definition isNumber :: "jsvalue option \<Rightarrow> bool" where
  "isNumber v = (case v of Some (JNumber r) \<Rightarrow> True | _ \<Rightarrow> False)"

text \<open>
  The copy \<open>{ ...newPayouts }\<close> that is stored: the accepted table has numbers at 3 to 6;
  of its other entries the model keeps the numbers.
\<close>

definition numericEntries :: "(nat \<rightharpoonup> jsvalue) \<Rightarrow> (nat \<rightharpoonup> rat)" where
  "numericEntries t = (\<lambda>k. case t k of Some (JNumber r) \<Rightarrow> Some r | _ \<Rightarrow> None)"

text \<open>
  \<open>updateSymbolPayouts\<close>: the offered table is \<open>None\<close> when it is \<open>null\<close> or
  \<open>undefined\<close>, on which \<open>newPayouts.hasOwnProperty\<close> raises TypeError once the guard has
  been passed; a primitive value has none of the keys, like the empty table. The
  assignment \<open>this.payoutTables[symbolId] = ...\<close> creates or replaces an own property,
  except under the name \<open>__proto__\<close> when that is not an own key: there it replaces the
  prototype of the object and leaves its own properties as they were.
\<close>

definition updateSymbolPayouts ::
  "catalog \<Rightarrow> string \<Rightarrow> (nat \<rightharpoonup> jsvalue) option \<Rightarrow> error + (bool \<times> catalog)" where
  "updateSymbolPayouts cat symbolId newPayoutsArg =
     (if falsyAt (map_of (symbolLibrary cat)) symbolId \<or> falsyAt (payoutTables cat) symbolId
      then Inr (False, cat)
      else
        (case newPayoutsArg of
           None \<Rightarrow> Inl TypeError
         | Some newPayouts \<Rightarrow>
             (let requiredKeys = [3, 4, 5, 6];
                  hasAllKeys = list_all (\<lambda>key. newPayouts key \<noteq> None \<and> isNumber (newPayouts key)) requiredKeys
              in if \<not> hasAllKeys then Inr (False, cat)
                 else if symbolId = ''__proto__'' \<and> payoutTables cat symbolId = None then Inr (True, cat)
                 else Inr (True, cat\<lparr>payoutTables := (payoutTables cat)(symbolId \<mapsto> numericEntries newPayouts)\<rparr>))))"

text \<open>
  The weight check of \<open>validateConfiguration\<close>: the ids for which it reports
  \<open>Symbol ... has invalid weight\<close>.
\<close>

definition invalidWeightErrors :: "catalog \<Rightarrow> string list" where
  "invalidWeightErrors cat =
     map fst (filter (\<lambda>(i, symbol). weight symbol \<le> 0) (symbolLibrary cat))"

section \<open>Win Evaluator: \<open>SlotEngineService\<close>\<close>

record win_position =
  reel_p :: nat
  position_p :: nat
  symbol_p :: cell

record combination =
  symbol_c :: cell
  length_c :: nat
  positions :: "win_position list"
  basePayout :: rat
  waysCount :: nat

record win_result =
  combinations :: "combination list"
  totalWaysToWin :: int
  hasWins :: bool

definition maxWaysToWin :: int where
  "maxWaysToWin = 117649"

definition calculateWaysToWin :: "reel list \<Rightarrow> int" where
  "calculateWaysToWin reelResult =
     min (foldl (\<lambda>waysToWin reel. waysToWin * height reel) 1 reelResult) maxWaysToWin"

text \<open>The test of the inner loop of \<open>findSymbolCombination\<close> on one cell.\<close>

definition matchesTarget :: "catalog \<Rightarrow> cell \<Rightarrow> cell \<Rightarrow> bool" where
  "matchesTarget cat targetSymbol symbol =
     (symbol = targetSymbol \<or> (canSubstitute cat ''wild'' targetSymbol \<and> symbol = Sym ''wild''))"

text \<open>The inner loop: the first matching cell of a reel, from the top, with its index.\<close>

fun firstMatch :: "(cell \<Rightarrow> bool) \<Rightarrow> cell list \<Rightarrow> nat \<Rightarrow> (nat \<times> cell) option" where
  "firstMatch P [] symbolIndex = None"
| "firstMatch P (symbol # rest) symbolIndex =
     (if P symbol then Some (symbolIndex, symbol) else firstMatch P rest (Suc symbolIndex))"

text \<open>The outer loop, from reel \<open>reelIdx\<close> on: it stops at the first reel without a match.\<close>

fun findSymbolCombinationFrom :: "catalog \<Rightarrow> cell \<Rightarrow> reel list \<Rightarrow> nat \<Rightarrow> win_position list" where
  "findSymbolCombinationFrom cat targetSymbol [] reelIdx = []"
| "findSymbolCombinationFrom cat targetSymbol (reel # rest) reelIdx =
     (case firstMatch (matchesTarget cat targetSymbol) (symbols reel) 0 of
        None \<Rightarrow> []
      | Some (symbolIndex, symbol) \<Rightarrow>
          \<lparr>reel_p = reelIdx, position_p = symbolIndex, symbol_p = symbol\<rparr>
            # findSymbolCombinationFrom cat targetSymbol rest (Suc reelIdx))"

definition findSymbolCombination :: "catalog \<Rightarrow> reel list \<Rightarrow> cell \<Rightarrow> win_position list" where
  "findSymbolCombination cat reelResult targetSymbol =
     findSymbolCombinationFrom cat targetSymbol reelResult 0"

text \<open>
  \<open>countWaysForCombination\<close> multiplies, over the first \<open>combinationLength\<close> reels, the
  number of cells that are the symbol or a wild. Its caller passes the length of a
  combination, which is at most the number of reels.
\<close>

definition countWaysForCombination :: "reel list \<Rightarrow> cell \<Rightarrow> nat \<Rightarrow> nat" where
  "countWaysForCombination reelResult symbol combinationLength =
     foldl (\<lambda>ways reel.
              ways * length (filter (\<lambda>reelSymbol. reelSymbol = symbol \<or> reelSymbol = Sym ''wild'')
                                    (symbols reel)))
           1 (take combinationLength reelResult)"

definition calculateSymbolPayout :: "catalog \<Rightarrow> cell \<Rightarrow> nat \<Rightarrow> rat" where
  "calculateSymbolPayout cat symbol len = getSymbolPayout cat (propertyKey symbol) len"

text \<open>\<open>getUniqueSymbols\<close>: the cell values of the grid in the order of their first occurrence.\<close>

definition addUnique :: "cell list \<Rightarrow> cell \<Rightarrow> cell list" where
  "addUnique uniqueSymbols symbol =
     (if symbol \<in> set uniqueSymbols then uniqueSymbols else uniqueSymbols @ [symbol])"

definition getUniqueSymbols :: "reel list \<Rightarrow> cell list" where
  "getUniqueSymbols reelResult = foldl addUnique [] (concat (map symbols reelResult))"

text \<open>The body of the loop of \<open>calculateWinningCombinations\<close>: the entries one symbol adds.\<close>

definition winningEntries :: "catalog \<Rightarrow> reel list \<Rightarrow> cell \<Rightarrow> combination list" where
  "winningEntries cat reelResult symbol =
     (if symbol = Sym ''scatter'' then []
      else
        (let combination = findSymbolCombination cat reelResult symbol
         in if length combination \<ge> 3 then
              (let payout = calculateSymbolPayout cat symbol (length combination)
               in if payout > 0 then
                    [\<lparr>symbol_c = symbol,
                      length_c = length combination,
                      positions = combination,
                      basePayout = payout,
                      waysCount = countWaysForCombination reelResult symbol (length combination)\<rparr>]
                  else [])
            else []))"

text \<open>The condition under which the loop body adds an entry for a symbol.\<close>

definition wins :: "catalog \<Rightarrow> reel list \<Rightarrow> cell \<Rightarrow> bool" where
  "wins cat rs s =
     (s \<noteq> Sym ''scatter'' \<and> 3 \<le> length (findSymbolCombination cat rs s)
      \<and> 0 < calculateSymbolPayout cat s (length (findSymbolCombination cat rs s)))"

definition calculateWinningCombinations :: "catalog \<Rightarrow> reel list \<Rightarrow> win_result" where
  "calculateWinningCombinations cat reelResult =
     (let waysToWin = calculateWaysToWin reelResult;
          symbolsOnReels = getUniqueSymbols reelResult;
          winningCombinations = concat (map (winningEntries cat reelResult) symbolsOnReels)
      in \<lparr>combinations = winningCombinations,
          totalWaysToWin = waysToWin,
          hasWins = (length winningCombinations > 0)\<rparr>)"

text \<open>
  \<open>calculateTotalPayout\<close>; its callers here always pass the bet amount. The base payout
  of a combination is a number of a payout table; the product with the bet amount and the
  sum are rounded.
\<close>

definition calculateTotalPayout :: "combination list \<Rightarrow> number \<Rightarrow> number" where
  "calculateTotalPayout winningCombinations betAmount =
     foldl (\<lambda>totalPayout combination.
              (let combinationPayout = numberMultiply (Finite (basePayout combination)) betAmount
               in numberAdd totalPayout combinationPayout))
           (Finite 0) winningCombinations"

subsection \<open>\<open>populateReels\<close>\<close>

text \<open>
  The symbol at an index of the weighted array: \<open>symbolBits % length\<close> is not a number
  when the array is empty, and indexing then gives \<open>undefined\<close>, as an index outside the
  array does.
\<close>

definition selectSymbol :: "string list \<Rightarrow> int \<Rightarrow> cell" where
  "selectSymbol weightedSymbols symbolBits =
     (if length weightedSymbols = 0 then Undefined
      else
        (let symbolIndex = symbolBits smod int (length weightedSymbols)
         in if 0 \<le> symbolIndex \<and> symbolIndex < int (length weightedSymbols)
            then Sym (weightedSymbols ! nat symbolIndex) else Undefined))"

text \<open>\<open>JSON.parse(JSON.stringify(reels))\<close>: a deep copy in which \<open>undefined\<close> cells become \<open>null\<close>.\<close>

definition jsonCell :: "cell \<Rightarrow> cell" where
  "jsonCell c = (if c = Undefined then Null else c)"

definition jsonCopy :: "reel list \<Rightarrow> reel list" where
  "jsonCopy reels = map (\<lambda>reel. reel\<lparr>symbols := map jsonCell (symbols reel)\<rparr>) reels"

text \<open>The loop \<open>for (let pos = 0; pos < reel.height; pos++)\<close> on one reel.\<close>

function populateLoop ::
  "string list \<Rightarrow> string \<Rightarrow> int \<Rightarrow> int \<Rightarrow> int \<Rightarrow> cell list \<Rightarrow> error + (cell list \<times> int)" where
  "populateLoop weightedSymbols vrfNumber reelHeight pos vrfIndex syms =
     (if pos < reelHeight then
        (case extractBits vrfNumber vrfIndex 8 of
           Inl e \<Rightarrow> Inl e
         | Inr symbolBits \<Rightarrow>
             populateLoop weightedSymbols vrfNumber reelHeight (pos + 1) (vrfIndex + 8)
               (syms @ [selectSymbol weightedSymbols symbolBits]))
      else Inr (syms, vrfIndex))"
  by pat_completeness auto
termination
  by (relation "measure (\<lambda>(weightedSymbols, vrfNumber, reelHeight, pos, vrfIndex, syms).
                            nat (reelHeight - pos))") auto

declare populateLoop.simps [simp del]

text \<open>
  The loop over the reels, with the running \<open>vrfIndex\<close>; the second component of the
  result is the index after the last cell.
\<close>

fun populateEach :: "string list \<Rightarrow> string \<Rightarrow> reel list \<Rightarrow> int \<Rightarrow> error + (reel list \<times> int)" where
  "populateEach weightedSymbols vrfNumber [] vrfIndex = Inr ([], vrfIndex)"
| "populateEach weightedSymbols vrfNumber (reel # rest) vrfIndex =
     (case populateLoop weightedSymbols vrfNumber (height reel) 0 vrfIndex (symbols reel) of
        Inl e \<Rightarrow> Inl e
      | Inr (syms, vrfIndex') \<Rightarrow>
          (case populateEach weightedSymbols vrfNumber rest vrfIndex' of
             Inl e \<Rightarrow> Inl e
           | Inr (rest', vrfIndex'') \<Rightarrow> Inr (reel\<lparr>symbols := syms\<rparr> # rest', vrfIndex'')))"

definition populateReels :: "catalog \<Rightarrow> string \<Rightarrow> reel list \<Rightarrow> error + reel list" where
  "populateReels cat vrfNumber reelConfig =
     (case populateEach (createWeightedSymbolArray cat True []) vrfNumber (jsonCopy reelConfig) 18 of
        Inl e \<Rightarrow> Inl e
      | Inr (populatedReels, vrfIndex) \<Rightarrow> Inr populatedReels)"

section \<open>Cascade Engine: \<open>CascadingReelsService\<close>\<close>

definition cascadeMultipliers :: "rat list" where
  "cascadeMultipliers = [1, 2, 3, 5, 8, 12, 20]"

definition maxCascades :: nat where
  "maxCascades = 6"

text \<open>
  \<open>removeWinningSymbols\<close>: the keys \<open>reel-position\<close> of all winning positions are
  collected in a set (here the pairs themselves), and every cell whose indices are in the
  set becomes \<open>null\<close>.
\<close>

definition removeWinningSymbols :: "reel list \<Rightarrow> combination list \<Rightarrow> reel list" where
  "removeWinningSymbols reelResult winningCombinations =
     (let modifiedReels = jsonCopy reelResult;
          symbolsToRemove =
            set (concat (map (\<lambda>combination.
                   map (\<lambda>position. (reel_p position, position_p position)) (positions combination))
                 winningCombinations))
      in map (\<lambda>(reelIdx, reel).
                reel\<lparr>symbols :=
                  map (\<lambda>(symbolIdx, symbol).
                         if (reelIdx, symbolIdx) \<in> symbolsToRemove then Null else symbol)
                      (enumerate 0 (symbols reel))\<rparr>)
             (enumerate 0 modifiedReels))"

text \<open>
  \<open>dropSymbolsDown\<close> on one reel. \<open>new Array(reel.height)\<close> raises RangeError unless the
  height is an array length; the new array starts with \<open>height\<close> empty slots, and the
  loop writes slot \<open>height - 1 - i\<close> for \<open>i\<close> from 0.
\<close>

definition dropReel :: "reel \<Rightarrow> error + reel" where
  "dropReel reel =
     (let remainingSymbols = filter (\<lambda>symbol. symbol \<noteq> Null) (symbols reel)
      in if height reel < 0 \<or> 2 ^ 32 \<le> height reel then Inl RangeError
         else
           (let h = nat (height reel);
                newSymbols =
                  foldl (\<lambda>newSymbols i.
                           newSymbols[h - 1 - i :=
                             (if i < length remainingSymbols
                              then remainingSymbols ! (length remainingSymbols - 1 - i)
                              else Null)])
                        (replicate h Undefined) [0..<h]
            in Inr (reel\<lparr>symbols := newSymbols\<rparr>)))"

text \<open>
  The array that the loop leaves, in closed form: the remaining symbols at the bottom,
  \<open>null\<close> above them; when there are more remaining symbols than slots, the last
  \<open>h\<close> of them. Lemma \<open>dropReel_eq\<close> proves that \<open>dropReel\<close> computes it.
\<close>

definition settled :: "nat \<Rightarrow> cell list \<Rightarrow> cell list" where
  "settled h remaining = replicate (h - length remaining) Null @ drop (length remaining - h) remaining"

fun dropEach :: "reel list \<Rightarrow> error + reel list" where
  "dropEach [] = Inr []"
| "dropEach (reel # rest) =
     (case dropReel reel of
        Inl e \<Rightarrow> Inl e
      | Inr reel' \<Rightarrow>
          (case dropEach rest of
             Inl e \<Rightarrow> Inl e
           | Inr rest' \<Rightarrow> Inr (reel' # rest')))"

definition dropSymbolsDown :: "reel list \<Rightarrow> error + reel list" where
  "dropSymbolsDown reelResult = dropEach (jsonCopy reelResult)"

text \<open>
  \<open>generateNewSymbols\<close>: every \<open>null\<close> cell, reel by reel and top to bottom, takes the
  symbol decoded from the next 8 bits at \<open>currentOffset\<close>.
\<close>

fun fillSymbols :: "string list \<Rightarrow> string \<Rightarrow> cell list \<Rightarrow> int \<Rightarrow> error + (cell list \<times> int)" where
  "fillSymbols weightedSymbols vrfNumber [] currentOffset = Inr ([], currentOffset)"
| "fillSymbols weightedSymbols vrfNumber (symbol # rest) currentOffset =
     (if symbol = Null then
        (case extractBits vrfNumber currentOffset 8 of
           Inl e \<Rightarrow> Inl e
         | Inr symbolBits \<Rightarrow>
             (case fillSymbols weightedSymbols vrfNumber rest (currentOffset + 8) of
                Inl e \<Rightarrow> Inl e
              | Inr (rest', offset') \<Rightarrow> Inr (selectSymbol weightedSymbols symbolBits # rest', offset')))
      else
        (case fillSymbols weightedSymbols vrfNumber rest currentOffset of
           Inl e \<Rightarrow> Inl e
         | Inr (rest', offset') \<Rightarrow> Inr (symbol # rest', offset')))"

fun fillEach :: "string list \<Rightarrow> string \<Rightarrow> reel list \<Rightarrow> int \<Rightarrow> error + (reel list \<times> int)" where
  "fillEach weightedSymbols vrfNumber [] currentOffset = Inr ([], currentOffset)"
| "fillEach weightedSymbols vrfNumber (reel # rest) currentOffset =
     (case fillSymbols weightedSymbols vrfNumber (symbols reel) currentOffset of
        Inl e \<Rightarrow> Inl e
      | Inr (syms, offset') \<Rightarrow>
          (case fillEach weightedSymbols vrfNumber rest offset' of
             Inl e \<Rightarrow> Inl e
           | Inr (rest', offset'') \<Rightarrow> Inr (reel\<lparr>symbols := syms\<rparr> # rest', offset'')))"

definition generateNewSymbols :: "catalog \<Rightarrow> reel list \<Rightarrow> string \<Rightarrow> int \<Rightarrow> error + reel list" where
  "generateNewSymbols cat reelResult vrfNumber vrfOffset =
     (case fillEach (createWeightedSymbolArray cat True []) vrfNumber (jsonCopy reelResult) vrfOffset of
        Inl e \<Rightarrow> Inl e
      | Inr (newReels, currentOffset) \<Rightarrow> Inr newReels)"

definition calculateVrfBitsNeeded :: "reel list \<Rightarrow> int" where
  "calculateVrfBitsNeeded reelResult =
     int (length (filter (\<lambda>symbol. symbol = Null) (concat (map symbols reelResult)))) * 8"

subsection \<open>\<open>processCascadingReels\<close>\<close>

record cascade_round =
  level :: nat
  reelState :: "reel list"
  winningCombinations :: "combination list"
  multiplier :: rat
  levelPayout :: number
  totalPayout :: number

text \<open>The local variables of \<open>processCascadingReels\<close> that the loop updates.\<close>

record cascade_state =
  cascadeResults :: "cascade_round list"
  currentReels :: "reel list"
  vrfOffset :: int
  cascadeLevel :: nat
  totalWinnings_v :: number
  currentWins :: win_result

record cascade_result =
  cascades :: "cascade_round list"
  finalReelState :: "reel list"
  totalCascades :: nat
  totalWinnings :: number
  maxMultiplierReached :: rat

text \<open>The \<open>while\<close> loop; its \<open>break\<close> is the branch that returns without a recursive call.\<close>

function cascadeLoop :: "catalog \<Rightarrow> string \<Rightarrow> number \<Rightarrow> cascade_state \<Rightarrow> error + cascade_state" where
  "cascadeLoop cat vrfNumber betAmount st =
     (if hasWins (currentWins st) \<and> cascadeLevel st < maxCascades then
        (let cascadeLevel' = cascadeLevel st + 1;
             removed = removeWinningSymbols (currentReels st) (combinations (currentWins st))
         in case dropSymbolsDown removed of
              Inl e \<Rightarrow> Inl e
            | Inr dropped \<Rightarrow>
                (case generateNewSymbols cat dropped vrfNumber (vrfOffset st) of
                   Inl e \<Rightarrow> Inl e
                 | Inr refilled \<Rightarrow>
                     (let vrfOffset' = vrfOffset st + calculateVrfBitsNeeded refilled;
                          cascadeWins = calculateWinningCombinations cat refilled
                      in if hasWins cascadeWins then
                           (let cascadeMultiplier =
                                  cascadeMultipliers ! min cascadeLevel' (length cascadeMultipliers - 1);
                                basePayout' = calculateTotalPayout (combinations cascadeWins) betAmount;
                                multipliedPayout = numberMultiply basePayout' (Finite cascadeMultiplier);
                                totalWinnings' = numberAdd (totalWinnings_v st) multipliedPayout
                            in cascadeLoop cat vrfNumber betAmount
                                 \<lparr>cascadeResults = cascadeResults st @
                                    [\<lparr>level = cascadeLevel',
                                      reelState = jsonCopy refilled,
                                      winningCombinations = combinations cascadeWins,
                                      multiplier = cascadeMultiplier,
                                      levelPayout = multipliedPayout,
                                      totalPayout = totalWinnings'\<rparr>],
                                  currentReels = refilled,
                                  vrfOffset = vrfOffset',
                                  cascadeLevel = cascadeLevel',
                                  totalWinnings_v = totalWinnings',
                                  currentWins = cascadeWins\<rparr>)
                         else Inr (st\<lparr>currentReels := refilled,
                                       vrfOffset := vrfOffset',
                                       cascadeLevel := cascadeLevel'\<rparr>))))
      else Inr st)"
  by pat_completeness auto
termination
  by (relation "measure (\<lambda>(cat, vrfNumber, betAmount, st). maxCascades - cascadeLevel st)") auto

declare cascadeLoop.simps [simp del]

text \<open>\<open>Math.max\<close> over the multipliers of a non-empty list of rounds.\<close>

definition maxMultiplier :: "cascade_round list \<Rightarrow> rat" where
  "maxMultiplier rounds = foldl max (multiplier (hd rounds)) (map multiplier (tl rounds))"

text \<open>
  The bet amount is optional; it is 1 when the caller leaves it out. The code uses it only
  as a factor of a product, which converts a value that is not a Number to one:
  \<open>betAmount\<close> is that Number.
\<close>

definition processCascadingReels ::
  "catalog \<Rightarrow> reel list \<Rightarrow> string \<Rightarrow> number option \<Rightarrow> error + cascade_result" where
  "processCascadingReels cat initialReelResult vrfNumber betAmountArg =
     (let betAmount = (case betAmountArg of None \<Rightarrow> Finite 1 | Some b \<Rightarrow> b);
          reels0 = jsonCopy initialReelResult;
          initialWins = calculateWinningCombinations cat reels0;
          st0 = \<lparr>cascadeResults = [], currentReels = reels0, vrfOffset = 256, cascadeLevel = 0,
                 totalWinnings_v = Finite 0, currentWins = initialWins\<rparr>;
          run =
            (if hasWins initialWins then
               (let initialPayout = calculateTotalPayout (combinations initialWins) betAmount;
                    totalWinnings1 = numberAdd (totalWinnings_v st0) initialPayout
                in cascadeLoop cat vrfNumber betAmount
                     (st0\<lparr>cascadeResults :=
                            [\<lparr>level = 0,
                              reelState = jsonCopy reels0,
                              winningCombinations = combinations initialWins,
                              multiplier = cascadeMultipliers ! 0,
                              levelPayout = initialPayout,
                              totalPayout = totalWinnings1\<rparr>],
                          totalWinnings_v := totalWinnings1\<rparr>))
             else Inr st0)
      in case run of
           Inl e \<Rightarrow> Inl e
         | Inr st \<Rightarrow>
             Inr \<lparr>cascades = cascadeResults st,
                  finalReelState = currentReels st,
                  totalCascades = length (cascadeResults st),
                  totalWinnings = totalWinnings_v st,
                  maxMultiplierReached =
                    (if length (cascadeResults st) > 0 then maxMultiplier (cascadeResults st) else 1)\<rparr>)"

subsection \<open>Predicates of the proofs\<close>

text \<open>
  What holds of the rounds recorded so far whenever the loop condition is tested: round
  \<open>i\<close> has level \<open>i\<close> and the multiplier of its level; its payout is the payout of its
  combinations, times its multiplier from level 1 on; and its \<open>totalPayout\<close> is the sum
  of the payouts up to it, added from 0 in the order of the rounds.
\<close>

definition roundsOk :: "number \<Rightarrow> cascade_round list \<Rightarrow> bool" where
  "roundsOk betAmount rounds =
     list_all (\<lambda>i. level (rounds ! i) = i
                  \<and> multiplier (rounds ! i) = cascadeMultipliers ! min i 6
                  \<and> levelPayout (rounds ! i)
                      = (if i = 0 then calculateTotalPayout (winningCombinations (rounds ! i)) betAmount
                         else numberMultiply (calculateTotalPayout (winningCombinations (rounds ! i)) betAmount)
                                (Finite (multiplier (rounds ! i))))
                  \<and> totalPayout (rounds ! i) = foldl numberAdd (Finite 0) (map levelPayout (take (Suc i) rounds)))
              [0..<length rounds]"

definition loopInv :: "number \<Rightarrow> cascade_state \<Rightarrow> bool" where
  "loopInv betAmount st =
     (length (cascadeResults st) = Suc (cascadeLevel st) \<and> cascadeLevel st \<le> maxCascades
      \<and> roundsOk betAmount (cascadeResults st)
      \<and> totalWinnings_v st = foldl numberAdd (Finite 0) (map levelPayout (cascadeResults st)))"

text \<open>The heights with which \<open>new Array(height)\<close> does not raise.\<close>

definition arrayHeights :: "reel list \<Rightarrow> bool" where
  "arrayHeights reels = list_all (\<lambda>reel. 0 \<le> height reel \<and> height reel < 2 ^ 32) reels"

subsection \<open>An example spin\<close>

text \<open>
  The spin for the random value whose bits 256 to 263 are 45 and whose other bits are 0:
  all heights are 2 and every cell of the initial grid is \<open>diamond_hands\<close>. The grids
  after the first and the second refill, and the winning combinations of the first two
  evaluations.
\<close>

definition exampleRandom :: string where
  "exampleRandom = ''0x2D0000000000000000000000000000000000000000000000000000000000000000''"

definition reel2 :: "nat \<Rightarrow> string \<Rightarrow> string \<Rightarrow> reel" where
  "reel2 i a b = \<lparr>reelIndex = i, height = 2, symbols = [Sym a, Sym b]\<rparr>"

definition exampleGrid :: "reel list" where
  "exampleGrid =
     [reel2 0 ''diamond_hands'' ''diamond_hands'', reel2 1 ''diamond_hands'' ''diamond_hands'',
      reel2 2 ''diamond_hands'' ''diamond_hands'', reel2 3 ''diamond_hands'' ''diamond_hands'',
      reel2 4 ''diamond_hands'' ''diamond_hands'', reel2 5 ''diamond_hands'' ''diamond_hands'']"

definition afterFirstRefill :: "reel list" where
  "afterFirstRefill =
     [reel2 0 ''crypto_wallet'' ''diamond_hands'', reel2 1 ''diamond_hands'' ''diamond_hands'',
      reel2 2 ''diamond_hands'' ''diamond_hands'', reel2 3 ''diamond_hands'' ''diamond_hands'',
      reel2 4 ''diamond_hands'' ''diamond_hands'', reel2 5 ''diamond_hands'' ''diamond_hands'']"

definition afterSecondRefill :: "reel list" where
  "afterSecondRefill =
     [reel2 0 ''crypto_wallet'' ''crypto_wallet'', reel2 1 ''diamond_hands'' ''diamond_hands'',
      reel2 2 ''diamond_hands'' ''diamond_hands'', reel2 3 ''diamond_hands'' ''diamond_hands'',
      reel2 4 ''diamond_hands'' ''diamond_hands'', reel2 5 ''diamond_hands'' ''diamond_hands'']"

definition handsAt :: "nat \<Rightarrow> nat \<Rightarrow> win_position" where
  "handsAt r p = \<lparr>reel_p = r, position_p = p, symbol_p = Sym ''diamond_hands''\<rparr>"

definition firstEntry :: combination where
  "firstEntry =
     \<lparr>symbol_c = Sym ''diamond_hands'', length_c = 6,
       positions = [handsAt 0 0, handsAt 1 0, handsAt 2 0, handsAt 3 0, handsAt 4 0, handsAt 5 0],
       basePayout = 50, waysCount = 64\<rparr>"

definition secondEntry :: combination where
  "secondEntry =
     \<lparr>symbol_c = Sym ''diamond_hands'', length_c = 6,
       positions = [handsAt 0 1, handsAt 1 0, handsAt 2 0, handsAt 3 0, handsAt 4 0, handsAt 5 0],
       basePayout = 50, waysCount = 32\<rparr>"

text \<open>A reel of the example whose upper cell has been emptied.\<close>

definition emptyTop :: "nat \<Rightarrow> string \<Rightarrow> reel" where
  "emptyTop i b = \<lparr>reelIndex = i, height = 2, symbols = [Null, Sym b]\<rparr>"

section \<open>Properties of the Number arithmetic\<close>

text \<open>
  How \<open>numberValueFor\<close> evaluates: an integer of magnitude below \<open>2 ^ 53\<close> is its own
  Number value, and a number \<open>x\<close> with \<open>2 ^ 52 \<le> |x| * 2 ^ k < 2 ^ 53\<close> is rounded to a
  multiple of \<open>2 ^ -k\<close>.
\<close>

lemma ulpBelow_power:
  "2 ^ 52 \<le> a * 2 ^ k \<Longrightarrow> a * 2 ^ k < 2 ^ 53 \<Longrightarrow> j + k \<le> 1074 \<Longrightarrow> ulpBelow a j = 1 / 2 ^ k"
proof (induction k arbitrary: a j)
  case 0
  then show ?case by (subst ulpBelow.simps) simp
next
  case (Suc k)
  have a: "a < 2 ^ 52"
  proof (rule ccontr)
    assume "\<not> a < 2 ^ 52"
    then have ge: "2 ^ 52 \<le> a" by simp
    have "(0::rat) \<le> 2 ^ 52" by simp
    with ge have a0: "0 \<le> a" by (rule order_trans [rotated])
    have two: "(2::rat) \<le> 2 ^ Suc k" by simp
    from ge two a0 have "2 ^ 52 * 2 \<le> a * 2 ^ Suc k" by (intro mult_mono) simp_all
    with Suc.prems(2) show False by simp
  qed
  from Suc.prems have "ulpBelow (2 * a) (Suc j) = 1 / 2 ^ k"
    by (intro Suc.IH) (simp_all add: mult.assoc)
  with a Suc.prems(3) show ?case by (subst ulpBelow.simps) simp
qed

lemma ulpBelow_inverse: "\<exists>k. ulpBelow a j = 1 / 2 ^ k"
proof (induction a j rule: ulpBelow.induct)
  case (1 a k)
  show ?case
  proof (cases "a < 2 ^ 52 \<and> k < 1074")
    case True
    from "1.IH" [OF True] obtain i where "ulpBelow (2 * a) (Suc k) = 1 / 2 ^ i" ..
    with True have "ulpBelow a k = 1 / 2 ^ Suc i" by (subst ulpBelow.simps) simp
    then show ?thesis ..
  next
    case False
    then have "ulpBelow a k = 1 / 2 ^ 0" by (subst ulpBelow.simps) auto
    then show ?thesis ..
  qed
qed

lemma roundHalfEven_of_int: "roundHalfEven (of_int n) = n"
  by (simp add: roundHalfEven_def)

lemma numberValueFor_of_int:
  assumes "\<bar>n\<bar> < 2 ^ 53"
  shows "numberValueFor (of_int n) = Finite (of_int n)"
proof -
  let ?a = "\<bar>of_int n :: rat\<bar>"
  have a: "?a = of_int \<bar>n\<bar>" by simp
  from assms have "of_int \<bar>n\<bar> < (of_int (2 ^ 53) :: rat)" by (simp only: of_int_less_iff)
  then have lt: "?a < 2 ^ 53" by simp
  then have "ulp ?a = ulpBelow ?a 0" by (simp add: ulp_def)
  with ulpBelow_inverse [of ?a 0] obtain k where u: "ulp ?a = 1 / 2 ^ k" by auto
  have "?a / ulp ?a = of_int (\<bar>n\<bar> * 2 ^ k)" by (simp add: u)
  then have r: "roundHalfEven (?a / ulp ?a) = \<bar>n\<bar> * 2 ^ k"
    by (simp only: roundHalfEven_of_int)
  have v: "of_int (roundHalfEven (?a / ulp ?a)) * ulp ?a = ?a"
    unfolding r by (simp add: u)
  have "(2::rat) ^ 53 \<le> 2 ^ 1024" by (rule power_increasing) simp_all
  with lt have big: "\<not> 2 ^ 1024 \<le> ?a" by linarith
  show ?thesis
    unfolding numberValueFor_def Let_def v using big by (auto simp: abs_if)
qed

lemma numberValueFor_normal:
  assumes "2 ^ 52 \<le> \<bar>x\<bar> * 2 ^ k" "\<bar>x\<bar> * 2 ^ k < 2 ^ 53" "k \<le> 1074"
  shows "numberValueFor x =
    Finite ((if x < 0 then - 1 else 1) * of_int (roundHalfEven (\<bar>x\<bar> * 2 ^ k)) / 2 ^ k)"
proof -
  let ?a = "\<bar>x\<bar>"
  have p: "(0::rat) < 2 ^ k" by simp
  have "?a * 1 \<le> ?a * 2 ^ k" by (rule mult_left_mono) simp_all
  with assms(2) have lt: "?a < 2 ^ 53" by simp
  then have "ulp ?a = ulpBelow ?a 0" by (simp add: ulp_def)
  with ulpBelow_power [OF assms(1,2)] assms(3) have u: "ulp ?a = 1 / 2 ^ k" by simp
  let ?n = "roundHalfEven (?a * 2 ^ k)"
  have m: "?a / ulp ?a = ?a * 2 ^ k" by (simp add: u)
  have "(2::rat) ^ 52 - 1 < of_int \<lfloor>?a * 2 ^ k\<rfloor>" using assms(1) by linarith
  then have fl: "(0::rat) < of_int \<lfloor>?a * 2 ^ k\<rfloor>" by simp
  then have f0: "0 < \<lfloor>?a * 2 ^ k\<rfloor>" by (simp only: of_int_0_less_iff)
  have "\<lfloor>?a * 2 ^ k\<rfloor> \<le> ?n" by (simp add: roundHalfEven_def Let_def)
  with f0 have n0: "0 < ?n" by linarith
  have "\<lfloor>?a * 2 ^ k\<rfloor> < 2 ^ 53" using assms(2) by (simp add: floor_less_iff)
  moreover have "?n \<le> \<lfloor>?a * 2 ^ k\<rfloor> + 1" by (simp add: roundHalfEven_def Let_def)
  ultimately have "?n \<le> 2 ^ 53" by linarith
  then have "(of_int ?n :: rat) \<le> of_int (2 ^ 53)" by (simp only: of_int_le_iff)
  then have nle: "(of_int ?n :: rat) \<le> 2 ^ 53" by simp
  have "(of_int ?n :: rat) / 2 ^ k \<le> of_int ?n" using n0 by (simp add: divide_le_eq_1 field_simps mult_le_cancel_left1)
  with nle have "(of_int ?n :: rat) / 2 ^ k \<le> 2 ^ 53" by linarith
  moreover have "(2::rat) ^ 53 < 2 ^ 1024" by (rule power_strict_increasing) simp_all
  ultimately have big: "\<not> 2 ^ 1024 \<le> (of_int ?n :: rat) / 2 ^ k" by linarith
  from n0 have nz: "(of_int ?n :: rat) / 2 ^ k \<noteq> 0" by simp
  have v: "of_int (roundHalfEven (?a / ulp ?a)) * ulp ?a = of_int ?n / 2 ^ k"
    unfolding m by (simp add: u)
  show ?thesis
    unfolding numberValueFor_def Let_def v using big nz by simp
qed

lemma numberValueFor_numeral:
  "(numeral w :: int) < 2 ^ 53 \<Longrightarrow> numberValueFor (numeral w) = Finite (numeral w)"
  using numberValueFor_of_int [of "numeral w"] by simp

lemma numberValueFor_0: "numberValueFor 0 = Finite 0"
  using numberValueFor_of_int [of 0] by simp

lemma floor_divide_numeral_rat:
  "\<lfloor>numeral a / numeral b :: rat\<rfloor> = numeral a div numeral b"
  using floor_divide_of_int_eq [of "numeral a" "numeral b", where ?'a = rat] by simp

lemma numberAdd_Finite:
  "numberAdd (Finite p) (Finite q) = numberValueFor (p + q)"
  by (simp add: numberAdd_def isInfinite_def mathematicalValue_def)

lemma numberMultiply_Finite:
  "p \<noteq> 0 \<Longrightarrow> q \<noteq> 0 \<Longrightarrow> numberMultiply (Finite p) (Finite q) = numberValueFor (p * q)"
  by (simp add: numberMultiply_def isInfinite_def isZero_def mathematicalValue_def)

lemmas evalNumber = numberAdd_Finite numberMultiply_Finite numberValueFor_numeral numberValueFor_0

section \<open>Properties of the Random Decoder\<close>

subsection \<open>Reading the random value\<close>

lemma digitValue_lt16: "digitValue c = Some d \<Longrightarrow> d < 16"
  by (auto simp: digitValue_def Let_def split: if_splits)

lemma readDigits_hex: "list_all isHexDigit ds \<Longrightarrow> readDigits 16 acc ds = Some (hexValue acc ds)"
proof (induction ds arbitrary: acc)
  case Nil
  then show ?case by simp
next
  case (Cons c cs)
  then obtain d where d: "digitValue c = Some d" by (auto simp: isHexDigit_def)
  with Cons show ?case by (simp add: digitValue_lt16 mult.commute)
qed

lemma hexDigit_not_space: "isHexDigit c \<Longrightarrow> \<not> isStrWhiteSpaceChar c"
  by (auto simp: isHexDigit_def digitValue_def isStrWhiteSpaceChar_def Let_def split: if_splits)

lemma trimString_id:
  assumes "s \<noteq> []" "\<not> isStrWhiteSpaceChar (hd s)" "\<not> isStrWhiteSpaceChar (last s)"
  shows "trimString s = s"
proof -
  from assms have 1: "dropWhile isStrWhiteSpaceChar s = s"
    by (cases s) auto
  from assms have "rev s \<noteq> []" "\<not> isStrWhiteSpaceChar (hd (rev s))"
    by (simp_all add: hd_rev)
  then have "dropWhile isStrWhiteSpaceChar (rev s) = rev s"
    by (cases "rev s") auto
  with 1 show ?thesis by (simp add: trimString_def)
qed

lemma wellFormedHex_trim: "wellFormedHex h \<Longrightarrow> trimString h = h"
proof -
  assume w: "wellFormedHex h"
  then have p: "take 2 h = ''0x''" and ne: "drop 2 h \<noteq> []" and hx: "list_all isHexDigit (drop 2 h)"
    by (simp_all add: wellFormedHex_def)
  from p have hne: "h \<noteq> []" by auto
  from p hne have "hd h = CHR ''0''" by (cases h) auto
  then have a: "\<not> isStrWhiteSpaceChar (hd h)" by (simp add: isStrWhiteSpaceChar_def)
  from ne have "last h = last (drop 2 h)" by (simp add: last_drop)
  moreover from ne hx have "isHexDigit (last (drop 2 h))"
    by (metis last_in_set list_all_iff)
  ultimately have b: "\<not> isStrWhiteSpaceChar (last h)" by (simp add: hexDigit_not_space)
  from hne a b show ?thesis by (rule trimString_id)
qed

lemma wellFormedHex_BigInt: "wellFormedHex h \<Longrightarrow> BigInt h = Inr (uint h)"
proof -
  assume w: "wellFormedHex h"
  then have p: "take 2 h = ''0x''" and ne: "drop 2 h \<noteq> []" and hx: "list_all isHexDigit (drop 2 h)"
    by (simp_all add: wellFormedHex_def)
  from p have hne: "h \<noteq> []" by auto
  have "StringToBigInt h = Some (uint h)"
    using p ne hne hx by (simp add: StringToBigInt_def wellFormedHex_trim [OF w] digitsValue_def readDigits_hex uint_def)
  then show ?thesis by (simp add: BigInt_def)
qed

lemma ulpShift_small: "n < 2 ^ 53 \<Longrightarrow> ulpShift n = 0"
  by (subst ulpShift.simps) simp

lemma Number_exact: "0 \<le> b \<Longrightarrow> b < 2 ^ 53 \<Longrightarrow> Number b = b"
proof -
  assume a: "0 \<le> b" "b < 2 ^ 53"
  then have "nat b < 2 ^ 53" by (simp add: nat_less_iff)
  then have "roundToDouble (nat b) = nat b"
    by (simp add: roundToDouble_def ulpShift_small)
  with a show ?thesis by (simp add: Number_def)
qed

lemma mask_shift: "0 \<le> c \<Longrightarrow> x AND (leftShift 1 c - 1) = take_bit (nat c) x"
  by (simp add: leftShift_def take_bit_eq_mask mask_eq_exp_minus_1)

lemma extractBits_value:
  assumes "BigInt h = Inr v" "0 \<le> c" "c \<le> 53"
  shows "extractBits h s c = Inr (take_bit (nat c) (signedRightShift v s))"
proof -
  let ?x = "take_bit (nat c) (signedRightShift v s)"
  have 1: "0 \<le> ?x" by simp
  have 2: "?x < 2 ^ nat c" by (rule take_bit_int_less_exp)
  from assms have 3: "(2::int) ^ nat c \<le> 2 ^ 53"
    by (intro power_increasing) auto
  from 2 3 have "?x < 2 ^ 53" by (rule less_le_trans)
  with 1 have "Number ?x = ?x" by (rule Number_exact)
  with assms show ?thesis by (simp add: extractBits_def mask_shift Let_def)
qed

lemma extractBits_total: "BigInt h = Inr v \<Longrightarrow> \<exists>n. extractBits h s c = Inr n"
  by (simp add: extractBits_def Let_def)

lemma generateReelLoop_step:
  assumes "BigInt h = Inr v" "i < 6"
  shows "generateReelLoop h i k rs =
     generateReelLoop h (i + 1) (k + 3)
       (rs @ [\<lparr>reelIndex = i, height = 2 + take_bit 3 (signedRightShift v k) mod 6, symbols = []\<rparr>])"
proof -
  have e: "extractBits h k 3 = Inr (take_bit 3 (signedRightShift v k))"
    using extractBits_value [OF assms(1), of 3 k] by simp
  have "take_bit 3 (signedRightShift v k) smod 6 = take_bit 3 (signedRightShift v k) mod 6"
    using take_bit_nonnegative [of 3 "signedRightShift v k"]
    by (auto simp: smod_int_alt_def sgn_if simp del: take_bit_nonnegative)
  with e assms(2) show ?thesis
    by (subst generateReelLoop.simps) (simp add: Let_def)
qed

lemma generateReelConfiguration_eq:
  assumes "BigInt h = Inr v"
  shows "generateReelConfiguration h = Inr (map (\<lambda>i. \<lparr>reelIndex = i, height = 2 + take_bit 3 (signedRightShift v (3 * int i)) mod 6, symbols = []\<rparr>) [0..<6])"
proof -
  have stop: "\<And>k rs. generateReelLoop h 6 k rs = Inr rs"
    by (subst generateReelLoop.simps) simp
  have u: "[0..<6] = [0, 1, 2, 3, 4, 5::nat]" by (simp add: upt_rec)
  have "generateReelLoop h 0 0 [] = generateReelLoop h 6 18
     (map (\<lambda>i. \<lparr>reelIndex = i, height = 2 + take_bit 3 (signedRightShift v (3 * int i)) mod 6, symbols = []\<rparr>) [0, 1, 2, 3, 4, 5])"
    apply (subst generateReelLoop_step [OF assms], simp)
    apply (subst generateReelLoop_step [OF assms], simp)
    apply (subst generateReelLoop_step [OF assms], simp)
    apply (subst generateReelLoop_step [OF assms], simp)
    apply (subst generateReelLoop_step [OF assms], simp)
    apply (subst generateReelLoop_step [OF assms], simp)
    apply (simp add: eval_nat_numeral)
    done
  then show ?thesis
    unfolding generateReelConfiguration_def u by (simp only: stop)
qed

lemma readDigits_Some_hex: "readDigits r acc ds = Some n \<Longrightarrow> list_all isHexDigit ds"
  by (induction ds arbitrary: acc) (auto simp: isHexDigit_def split: option.splits if_splits)

lemma digitsValue_Some_hex: "digitsValue r ds = Some n \<Longrightarrow> list_all isHexDigit ds"
  by (auto simp: digitsValue_def split: if_splits dest: readDigits_Some_hex)

lemma in_set_dropWhile: "c \<in> set xs \<Longrightarrow> \<not> P c \<Longrightarrow> c \<in> set (dropWhile P xs)"
  by (induction xs) auto

lemma in_set_trimString: "c \<in> set s \<Longrightarrow> \<not> isStrWhiteSpaceChar c \<Longrightarrow> c \<in> set (trimString s)"
  by (simp add: trimString_def in_set_dropWhile)

lemma StringToBigInt_bad_char:
  assumes "c \<in> set h" "\<not> isLiteralChar c"
  shows "StringToBigInt h = None"
proof (rule ccontr)
  assume "StringToBigInt h \<noteq> None"
  then obtain n where n: "StringToBigInt h = Some n" by auto
  let ?s = "trimString h"
  from assms have nh: "\<not> isHexDigit c" and nw: "\<not> isStrWhiteSpaceChar c"
    and nx: "c \<notin> set ''xXoO+-''"
    by (auto simp: isLiteralChar_def)
  from assms(1) nw have cs: "c \<in> set ?s" by (rule in_set_trimString)
  then have ne: "?s \<noteq> []" by auto
  have c0: "c \<noteq> CHR ''0''" using nh by (auto simp: isHexDigit_def digitValue_def)
  have cb: "c \<noteq> CHR ''b''" "c \<noteq> CHR ''B''" using nh by (auto simp: isHexDigit_def digitValue_def)
  have split2: "set ?s = set (take 2 ?s) \<union> set (drop 2 ?s)"
    by (metis append_take_drop_id set_append)
  have split1: "set ?s = insert (hd ?s) (set (tl ?s))"
    using ne by (cases ?s) auto
  have bad: "\<And>r ds m. c \<in> set ds \<Longrightarrow> digitsValue r ds = Some m \<Longrightarrow> False"
    using nh by (auto dest!: digitsValue_Some_hex simp: list_all_iff)
  consider (hex) "take 2 ?s = ''0x'' \<or> take 2 ?s = ''0X''"
    | (oct) "take 2 ?s = ''0o'' \<or> take 2 ?s = ''0O''"
    | (bin) "take 2 ?s = ''0b'' \<or> take 2 ?s = ''0B''"
    | (plus) "\<not> (take 2 ?s = ''0x'' \<or> take 2 ?s = ''0X'')" "\<not> (take 2 ?s = ''0o'' \<or> take 2 ?s = ''0O'')"
        "\<not> (take 2 ?s = ''0b'' \<or> take 2 ?s = ''0B'')" "hd ?s = CHR ''+'' \<or> hd ?s = CHR ''-''"
    | (dec) "\<not> (take 2 ?s = ''0x'' \<or> take 2 ?s = ''0X'')" "\<not> (take 2 ?s = ''0o'' \<or> take 2 ?s = ''0O'')"
        "\<not> (take 2 ?s = ''0b'' \<or> take 2 ?s = ''0B'')" "hd ?s \<noteq> CHR ''+''" "hd ?s \<noteq> CHR ''-''"
    by blast
  then show False
  proof cases
    case hex
    with cs split2 c0 nx have "c \<in> set (drop 2 ?s)" by auto
    moreover from n ne hex obtain m where "digitsValue 16 (drop 2 ?s) = Some m"
      by (auto simp: StringToBigInt_def Let_def)
    ultimately show False by (rule bad)
  next
    case oct
    with cs split2 c0 nx have "c \<in> set (drop 2 ?s)" by auto
    moreover from n ne oct obtain m where "digitsValue 8 (drop 2 ?s) = Some m"
      by (auto simp: StringToBigInt_def Let_def)
    ultimately show False by (rule bad)
  next
    case bin
    with cs split2 c0 cb have "c \<in> set (drop 2 ?s)" by auto
    moreover from n ne bin obtain m where "digitsValue 2 (drop 2 ?s) = Some m"
      by (auto simp: StringToBigInt_def Let_def)
    ultimately show False by (rule bad)
  next
    case plus
    with cs split1 nx have "c \<in> set (tl ?s)" by auto
    moreover from n ne plus obtain m where "digitsValue 10 (tl ?s) = Some m"
      by (auto simp: StringToBigInt_def Let_def split: if_splits)
    ultimately show False by (rule bad)
  next
    case dec
    with n ne obtain m where "digitsValue 10 ?s = Some m"
      by (auto simp: StringToBigInt_def Let_def split: if_splits)
    with cs show False by (rule bad)
  qed
qed

lemma StringToBigInt_bad_hex:
  assumes "take 2 h = ''0x''" "c \<in> set (drop 2 h)" "\<not> isHexDigit c" "\<not> isStrWhiteSpaceChar c"
  shows "StringToBigInt h = None"
proof -
  define ds where "ds = drop 2 h"
  from assms(1) have h: "h = CHR ''0'' # CHR ''x'' # ds"
    unfolding ds_def by (metis append_Cons append_Nil append_take_drop_id)
  let ?t = "rev (dropWhile isStrWhiteSpaceChar (rev ds))"
  have w0: "\<not> isStrWhiteSpaceChar (CHR ''0'')" by (simp add: isStrWhiteSpaceChar_def)
  from assms(2,4) have "dropWhile isStrWhiteSpaceChar (rev ds @ ''x0'') = dropWhile isStrWhiteSpaceChar (rev ds) @ ''x0''"
    unfolding ds_def by (intro dropWhile_append1 [of c]) auto
  with w0 have t: "trimString h = CHR ''0'' # CHR ''x'' # ?t"
    by (simp add: trimString_def h)
  from assms(2,4) have "c \<in> set ?t"
    unfolding ds_def by (simp add: in_set_dropWhile)
  with assms(3) have "digitsValue 16 ?t = None"
    by (cases "digitsValue 16 ?t") (auto dest!: digitsValue_Some_hex simp: list_all_iff)
  with t show ?thesis by (simp add: StringToBigInt_def)
qed

lemma extractBits_SyntaxError: "StringToBigInt h = None \<Longrightarrow> extractBits h s c = Inl SyntaxError"
  by (simp add: extractBits_def BigInt_def)

lemma readDigits_dec:
  "list_all (\<lambda>c. c \<in> set ''0123456789'') ds \<Longrightarrow> \<exists>n. readDigits 10 acc ds = Some n"
proof (induction ds arbitrary: acc)
  case Nil
  then show ?case by simp
next
  case (Cons c cs)
  from Cons.prems have "c \<in> set ''0123456789''" by simp
  then have "\<exists>d. digitValue c = Some d \<and> d < 10"
    by (auto simp: digitValue_def)
  with Cons show ?case by auto
qed

lemma decimal_StringToBigInt:
  assumes "h \<noteq> []" "list_all isDecimalDigit h"
  shows "\<exists>n. StringToBigInt h = Some n"
proof -
  have nw: "\<And>c. isDecimalDigit c \<Longrightarrow> \<not> isStrWhiteSpaceChar c"
    by (auto simp: isDecimalDigit_def isStrWhiteSpaceChar_def)
  from assms have "isDecimalDigit (hd h)" "isDecimalDigit (last h)"
    by (auto simp: list_all_iff)
  then have t: "trimString h = h"
    using assms(1) by (intro trimString_id) (auto dest: nw)
  have p: "\<And>a b. take 2 h = [a, b] \<Longrightarrow> isDecimalDigit b"
  proof -
    fix a b assume "take 2 h = [a, b]"
    then have "b \<in> set (take 2 h)" by simp
    then have "b \<in> set h" by (rule in_set_takeD)
    with assms(2) show "isDecimalDigit b" by (simp add: list_all_iff)
  qed
  have np: "take 2 h \<noteq> ''0x''" "take 2 h \<noteq> ''0X''" "take 2 h \<noteq> ''0o''" "take 2 h \<noteq> ''0O''"
    "take 2 h \<noteq> ''0b''" "take 2 h \<noteq> ''0B''"
    using p by (auto simp: isDecimalDigit_def)
  from \<open>isDecimalDigit (hd h)\<close> have ns: "hd h \<noteq> CHR ''+''" "hd h \<noteq> CHR ''-''"
    by (auto simp: isDecimalDigit_def)
  from assms(2) obtain n where "readDigits 10 0 h = Some n"
    using readDigits_dec [of h 0] by (auto simp: isDecimalDigit_def [abs_def])
  with assms(1) t np ns show ?thesis
    by (simp add: StringToBigInt_def digitsValue_def)
qed

lemma signedRightShift_nonneg: "0 \<le> s \<Longrightarrow> signedRightShift v s = v div 2 ^ nat s"
  by (auto simp: signedRightShift_def leftShift_def drop_bit_eq_div)

lemma extractBits_div_mod:
  assumes "BigInt h = Inr v" "0 \<le> s" "0 \<le> c" "c \<le> 53"
  shows "extractBits h s c = Inr ((v div 2 ^ nat s) mod 2 ^ nat c)"
  using assms by (simp add: extractBits_value signedRightShift_nonneg take_bit_eq_mod)

lemma BigInt_0xFF: "BigInt ''0xFF'' = Inr 255"
  by (simp add: BigInt_def StringToBigInt_def trimString_def isStrWhiteSpaceChar_def
      digitsValue_def digitValue_def)

subsection \<open>Claim C5: what \<open>extractBits\<close> computes\<close>

text \<open>
  The result of \<open>extractBits\<close> is a JavaScript number. A masked value of 54 bits or more
  need not be a double, and \<open>Number\<close> then rounds it: with 54 one bits the result is
  \<open>2 ^ 54\<close>, outside the range of a 54-bit field.
\<close>

lemma ulpShift_2_54: "ulpShift 18014398509481983 = 1"
  by (subst ulpShift.simps, simp, subst ulpShift.simps, simp)

theorem extractBits_wide_counterexample:
  "wellFormedHex ''0x3FFFFFFFFFFFFF'' \<and> (0::int) < 54
   \<and> extractBits ''0x3FFFFFFFFFFFFF'' 0 54 = Inr (2 ^ 54)
   \<and> (uint ''0x3FFFFFFFFFFFFF'' div 2 ^ nat 0) mod 2 ^ nat 54 = 2 ^ 54 - 1
   \<and> \<not> ((2::int) ^ 54 \<le> 2 ^ nat 54 - 1)"
proof -
  have w: "wellFormedHex ''0x3FFFFFFFFFFFFF''"
    by (simp add: wellFormedHex_def isHexDigit_def digitValue_def)
  have u: "uint ''0x3FFFFFFFFFFFFF'' = 18014398509481983"
    by (simp add: uint_def digitValue_def)
  have n: "Number 18014398509481983 = 18014398509481984"
    by (simp add: Number_def roundToDouble_def ulpShift_2_54)
  have e: "extractBits ''0x3FFFFFFFFFFFFF'' 0 54 = Inr (2 ^ 54)"
    using wellFormedHex_BigInt [OF w]
    by (simp add: extractBits_def u leftShift_def signedRightShift_def n)
  from w u e show ?thesis by simp
qed

text \<open>
  C5, for a bit count of at most 53: for every well-formed \<open>0x\<close>-prefixed hex string \<open>h\<close>,
  non-negative \<open>startBit\<close> and positive \<open>bitCount \<le> 53\<close>, \<open>extractBits\<close> returns
  \<open>uint h\<close> shifted right by \<open>startBit\<close> and masked to \<open>bitCount\<close> bits; the result lies
  in \<open>[0, 2 ^ bitCount - 1]\<close> and is 0 when the offset is at or beyond the bit width of the
  input. In particular \<open>extractBits('0xFF', 0, 3) = 7\<close>, \<open>extractBits('0xFF', 3, 3) = 7\<close>
  and \<open>extractBits('0xFF', 6, 2) = 3\<close>.
\<close>

theorem extractBits_shift_mask:
  assumes "wellFormedHex h" and "0 \<le> s" and "0 < c" and "c \<le> 53"
  shows "(\<exists>v. extractBits h s c = Inr v \<and> v = (uint h div 2 ^ nat s) mod 2 ^ nat c
            \<and> 0 \<le> v \<and> v \<le> 2 ^ nat c - 1 \<and> (uint h < 2 ^ nat s \<longrightarrow> v = 0))
         \<and> extractBits ''0xFF'' 0 3 = Inr 7 \<and> extractBits ''0xFF'' 3 3 = Inr 7
         \<and> extractBits ''0xFF'' 6 2 = Inr 3"
proof -
  let ?v = "(uint h div 2 ^ nat s) mod 2 ^ nat c"
  have u0: "0 \<le> uint h" by (simp add: uint_def)
  from assms have e: "extractBits h s c = Inr ?v"
    by (simp add: extractBits_div_mod [OF wellFormedHex_BigInt])
  have r: "?v < 2 ^ nat c" by simp
  then have r2: "?v \<le> 2 ^ nat c - 1" by linarith
  have r0: "0 \<le> ?v" by simp
  have z: "uint h < 2 ^ nat s \<Longrightarrow> ?v = 0"
    using u0 by (simp add: div_pos_pos_trivial)
  have x1: "extractBits ''0xFF'' 0 3 = Inr 7"
    by (simp add: extractBits_div_mod [OF BigInt_0xFF])
  have x2: "extractBits ''0xFF'' 3 3 = Inr 7"
    by (simp add: extractBits_div_mod [OF BigInt_0xFF])
  have x3: "extractBits ''0xFF'' 6 2 = Inr 3"
    by (simp add: extractBits_div_mod [OF BigInt_0xFF])
  have "\<exists>v. extractBits h s c = Inr v \<and> v = ?v
            \<and> 0 \<le> v \<and> v \<le> 2 ^ nat c - 1 \<and> (uint h < 2 ^ nat s \<longrightarrow> v = 0)"
    by (intro exI [of _ ?v] conjI impI) (rule e refl r0 r2 z | assumption)+
  with x1 x2 x3 show ?thesis by (intro conjI)
qed

theorem extractBits_shift_mask_witness:
  "wellFormedHex ''0xA7'' \<and> (0::int) \<le> 2 \<and> (0::int) < 4 \<and> (4::int) \<le> 53
   \<and> extractBits ''0xA7'' 2 4 = Inr 9 \<and> uint ''0xA7'' < 2 ^ nat 8 \<and> extractBits ''0xA7'' 8 4 = Inr 0"
proof -
  have w: "wellFormedHex ''0xA7''"
    by (simp add: wellFormedHex_def isHexDigit_def digitValue_def)
  have u: "uint ''0xA7'' = 167"
    by (simp add: uint_def digitValue_def)
  have a: "extractBits ''0xA7'' 2 4 = Inr 9"
    using extractBits_shift_mask [OF w, of 2 4] by (simp add: u)
  have b: "extractBits ''0xA7'' 8 4 = Inr 0"
    using extractBits_shift_mask [OF w, of 8 4] by (simp add: u)
  from w u a b show ?thesis by simp
qed

subsection \<open>Claim C6: when \<open>extractBits\<close> fails\<close>

text \<open>
  \<open>extractBits\<close> has no check of its own: it fails exactly when \<open>BigInt\<close> rejects the
  string. A string without the \<open>0x\<close> prefix is therefore not rejected as such: \<open>'255'\<close>
  is read as the decimal number 255, and \<open>'0o17'\<close>, which has the non-hex character
  \<open>o\<close>, as the octal number 15.
\<close>

lemma BigInt_255: "BigInt ''255'' = Inr 255"
  by (simp add: BigInt_def StringToBigInt_def trimString_def isStrWhiteSpaceChar_def
      digitsValue_def digitValue_def)

lemma BigInt_0o17: "BigInt ''0o17'' = Inr 15"
  by (simp add: BigInt_def StringToBigInt_def trimString_def isStrWhiteSpaceChar_def
      digitsValue_def digitValue_def)

theorem extractBits_prefix_counterexample:
  "take 2 ''255'' \<noteq> ''0x'' \<and> extractBits ''255'' 0 8 = Inr 255
   \<and> \<not> isHexDigit (CHR ''o'') \<and> extractBits ''0o17'' 0 8 = Inr 15"
  by (simp add: isHexDigit_def digitValue_def extractBits_div_mod [OF BigInt_255]
      extractBits_div_mod [OF BigInt_0o17])

text \<open>
  C6, as the code has it: for every \<open>startBit\<close> and \<open>bitCount\<close>, \<open>extractBits\<close> never
  fails on well-formed \<open>0x\<close>-prefixed hex input; it raises SyntaxError on an input that
  contains a character no BigInt literal can contain, and on an input that has, after the
  \<open>0x\<close> prefix, no digit or a character that is neither a hex digit nor white space; an
  input without the prefix that consists of decimal digits is accepted.
\<close>

theorem extractBits_failure:
  "(wellFormedHex h \<longrightarrow> (\<exists>v. extractBits h s c = Inr v))
   \<and> ((\<exists>ch \<in> set h. \<not> isLiteralChar ch) \<longrightarrow> extractBits h s c = Inl SyntaxError)
   \<and> (take 2 h = ''0x'' \<and> (drop 2 h = [] \<or> (\<exists>ch \<in> set (drop 2 h). \<not> isHexDigit ch \<and> \<not> isStrWhiteSpaceChar ch))
        \<longrightarrow> extractBits h s c = Inl SyntaxError)
   \<and> (h \<noteq> [] \<and> list_all isDecimalDigit h \<longrightarrow> (\<exists>v. extractBits h s c = Inr v))"
proof -
  have c1: "wellFormedHex h \<Longrightarrow> \<exists>v. extractBits h s c = Inr v"
    by (rule extractBits_total [OF wellFormedHex_BigInt])
  have c2: "\<exists>ch \<in> set h. \<not> isLiteralChar ch \<Longrightarrow> extractBits h s c = Inl SyntaxError"
    by (auto intro: extractBits_SyntaxError StringToBigInt_bad_char)
  have c3: "take 2 h = ''0x'' \<Longrightarrow> \<exists>ch \<in> set (drop 2 h). \<not> isHexDigit ch \<and> \<not> isStrWhiteSpaceChar ch
       \<Longrightarrow> extractBits h s c = Inl SyntaxError"
    by (auto intro: extractBits_SyntaxError StringToBigInt_bad_hex)
  have c4: "take 2 h = ''0x'' \<Longrightarrow> drop 2 h = [] \<Longrightarrow> extractBits h s c = Inl SyntaxError"
  proof -
    assume "take 2 h = ''0x''" "drop 2 h = []"
    then have "h = ''0x''" by (metis append_Nil2 append_take_drop_id)
    then have "StringToBigInt h = None"
      by (simp add: StringToBigInt_def trimString_def isStrWhiteSpaceChar_def digitsValue_def)
    then show "extractBits h s c = Inl SyntaxError" by (rule extractBits_SyntaxError)
  qed
  have c5: "h \<noteq> [] \<Longrightarrow> list_all isDecimalDigit h \<Longrightarrow> \<exists>v. extractBits h s c = Inr v"
  proof -
    assume "h \<noteq> []" "list_all isDecimalDigit h"
    then obtain n where "StringToBigInt h = Some n"
      using decimal_StringToBigInt by blast
    then have "BigInt h = Inr n" by (simp add: BigInt_def)
    then show "\<exists>v. extractBits h s c = Inr v" by (rule extractBits_total)
  qed
  from c1 c2 c3 c4 c5 show ?thesis by blast
qed

theorem extractBits_failure_witness:
  "wellFormedHex ''0xFF'' \<and> extractBits ''0xFF'' 0 3 = Inr 7
   \<and> (\<exists>ch \<in> set ''0xFG''. \<not> isLiteralChar ch) \<and> extractBits ''0xFG'' 0 3 = Inl SyntaxError
   \<and> take 2 ''0x1x'' = ''0x'' \<and> (\<exists>ch \<in> set (drop 2 ''0x1x''). \<not> isHexDigit ch \<and> \<not> isStrWhiteSpaceChar ch)
   \<and> extractBits ''0x1x'' 0 3 = Inl SyntaxError
   \<and> ''12'' \<noteq> [] \<and> list_all isDecimalDigit ''12'' \<and> (\<exists>v. extractBits ''12'' 0 3 = Inr v)"
proof -
  have w: "wellFormedHex ''0xFF''"
    by (simp add: wellFormedHex_def isHexDigit_def digitValue_def)
  have a: "extractBits ''0xFF'' 0 3 = Inr 7"
    by (simp add: extractBits_div_mod [OF BigInt_0xFF])
  have b: "\<exists>ch \<in> set ''0xFG''. \<not> isLiteralChar ch"
    by (simp add: isLiteralChar_def isHexDigit_def digitValue_def isStrWhiteSpaceChar_def)
  have c: "\<exists>ch \<in> set (drop 2 ''0x1x''). \<not> isHexDigit ch \<and> \<not> isStrWhiteSpaceChar ch"
    by (simp add: isHexDigit_def digitValue_def isStrWhiteSpaceChar_def)
  have d: "list_all isDecimalDigit ''12''"
    by (simp add: isDecimalDigit_def)
  from w a b c d
    extractBits_failure [of "''0xFG''" 0 3] extractBits_failure [of "''0x1x''" 0 3]
    extractBits_failure [of "''12''" 0 3] extractBits_failure [of "''0xFF''" 0 3]
  show ?thesis by simp
qed

subsection \<open>Claim C7: \<open>generateReelConfiguration\<close>\<close>

text \<open>
  C7: for every valid random input, \<open>generateReelConfiguration\<close> returns exactly 6 reels;
  reel \<open>i\<close> has \<open>reelIndex = i\<close>, no symbols, and height
  \<open>2 + (extractBits(random, i * 3, 3) mod 6)\<close>, which lies in \<open>[2, 7]\<close>. The result is a
  function of the random input alone.
\<close>

theorem generateReelConfiguration_heights:
  assumes "wellFormedHex vrfNumber"
  shows "\<exists>reels. generateReelConfiguration vrfNumber = Inr reels \<and> length reels = 6
           \<and> (\<forall>i<6. reelIndex (reels ! i) = i \<and> symbols (reels ! i) = []
                 \<and> (\<exists>bits. extractBits vrfNumber (int i * 3) 3 = Inr bits
                       \<and> height (reels ! i) = 2 + bits mod 6)
                 \<and> 2 \<le> height (reels ! i) \<and> height (reels ! i) \<le> 7)"
proof -
  let ?v = "uint vrfNumber"
  let ?b = "\<lambda>i. take_bit 3 (signedRightShift ?v (3 * int i))"
  let ?f = "\<lambda>i. \<lparr>reelIndex = i, height = 2 + ?b i mod 6, symbols = []\<rparr>"
  have b: "BigInt vrfNumber = Inr ?v" by (rule wellFormedHex_BigInt [OF assms])
  have g: "generateReelConfiguration vrfNumber = Inr (map ?f [0..<6])"
    by (rule generateReelConfiguration_eq [OF b])
  have e: "extractBits vrfNumber (int i * 3) 3 = Inr (?b i)" for i
    using extractBits_value [OF b, of 3 "int i * 3"] by (simp add: mult.commute)
  have r: "2 \<le> 2 + x mod 6 \<and> 2 + x mod 6 \<le> 7" for x :: int
    using pos_mod_bound [of 6 x] by simp
  have n: "map ?f [0..<6] ! i = ?f i" if "i < 6" for i
    using that by (simp del: upt_Suc)
  have "reelIndex (map ?f [0..<6] ! i) = i \<and> symbols (map ?f [0..<6] ! i) = []
                 \<and> (\<exists>bits. extractBits vrfNumber (int i * 3) 3 = Inr bits
                       \<and> height (map ?f [0..<6] ! i) = 2 + bits mod 6)
                 \<and> 2 \<le> height (map ?f [0..<6] ! i) \<and> height (map ?f [0..<6] ! i) \<le> 7"
    if "i < 6" for i
    unfolding n [OF that] using e [of i] r [of "?b i"] by simp
  then show ?thesis
    unfolding g by (intro exI [of _ "map ?f [0..<6]"] conjI allI impI) (simp_all del: upt_Suc)
qed

theorem generateReelConfiguration_heights_witness:
  "wellFormedHex ''0x1F3'' \<and> (2::nat) < 6
   \<and> (\<exists>reels. generateReelConfiguration ''0x1F3'' = Inr reels \<and> length reels = 6
         \<and> reelIndex (reels ! 2) = 2 \<and> symbols (reels ! 2) = [] \<and> height (reels ! 2) = 3)"
proof -
  have w: "wellFormedHex ''0x1F3''"
    by (simp add: wellFormedHex_def isHexDigit_def digitValue_def)
  have u: "uint ''0x1F3'' = 499"
    by (simp add: uint_def digitValue_def)
  have e: "extractBits ''0x1F3'' 6 3 = Inr 7"
    using extractBits_div_mod [OF wellFormedHex_BigInt [OF w], of 6 3] by (simp add: u)
  from generateReelConfiguration_heights [OF w] obtain reels where
    r: "generateReelConfiguration ''0x1F3'' = Inr reels" "length reels = 6"
    and a: "\<forall>i<6. reelIndex (reels ! i) = i \<and> symbols (reels ! i) = []
                 \<and> (\<exists>bits. extractBits ''0x1F3'' (int i * 3) 3 = Inr bits
                       \<and> height (reels ! i) = 2 + bits mod 6)
                 \<and> 2 \<le> height (reels ! i) \<and> height (reels ! i) \<le> 7"
    by (elim exE conjE) (rule that)
  have "(2::nat) < 6" by simp
  with a have "reelIndex (reels ! 2) = 2 \<and> symbols (reels ! 2) = []
                 \<and> (\<exists>bits. extractBits ''0x1F3'' (int 2 * 3) 3 = Inr bits
                       \<and> height (reels ! 2) = 2 + bits mod 6)"
    by blast
  with e have "reelIndex (reels ! 2) = 2 \<and> symbols (reels ! 2) = [] \<and> height (reels ! 2) = 3"
    by simp
  with w r show ?thesis by simp
qed

section \<open>Properties of the Win Evaluator\<close>

subsection \<open>Claim C8: \<open>calculateWaysToWin\<close>\<close>

lemma foldl_heights: "foldl (\<lambda>waysToWin reel. waysToWin * height reel) a rs = a * prod_list (map height rs)"
  by (induction rs arbitrary: a) (simp_all add: mult.assoc)

lemma calculateWaysToWin_min:
  "calculateWaysToWin rs = min (prod_list (map height rs)) 117649"
  by (simp add: calculateWaysToWin_def foldl_heights maxWaysToWin_def)






subsection \<open>Claim C4: the winning combinations\<close>

lemma set_foldl_addUnique: "set (foldl addUnique acc xs) = set acc \<union> set xs"
  by (induction xs arbitrary: acc) (auto simp: addUnique_def)

lemma distinct_foldl_addUnique: "distinct acc \<Longrightarrow> distinct (foldl addUnique acc xs)"
  by (induction xs arbitrary: acc) (auto simp: addUnique_def)

lemma set_getUniqueSymbols: "set (getUniqueSymbols rs) = set (concat (map symbols rs))"
  by (simp add: getUniqueSymbols_def set_foldl_addUnique)

lemma distinct_getUniqueSymbols: "distinct (getUniqueSymbols rs)"
  by (simp add: getUniqueSymbols_def distinct_foldl_addUnique)

lemma winningEntries_cases:
  "winningEntries cat rs s =
     (if wins cat rs s then
        [\<lparr>symbol_c = s,
          length_c = length (findSymbolCombination cat rs s),
          positions = findSymbolCombination cat rs s,
          basePayout = calculateSymbolPayout cat s (length (findSymbolCombination cat rs s)),
          waysCount = countWaysForCombination rs s (length (findSymbolCombination cat rs s))\<rparr>]
      else [])"
  by (simp add: winningEntries_def wins_def Let_def)

lemma in_winningEntries:
  "c \<in> set (winningEntries cat rs u) \<Longrightarrow>
     symbol_c c = u \<and> wins cat rs u \<and> 0 < basePayout c \<and> 3 \<le> length_c c
     \<and> positions c = findSymbolCombination cat rs u \<and> length_c c = length (positions c)
     \<and> basePayout c = calculateSymbolPayout cat u (length_c c)"
  by (auto simp: winningEntries_cases wins_def split: if_splits)

lemma combinations_eq:
  "combinations (calculateWinningCombinations cat rs) = concat (map (winningEntries cat rs) (getUniqueSymbols rs))"
  by (simp add: calculateWinningCombinations_def Let_def)

lemma entry_iff:
  "(\<exists>c \<in> set (combinations (calculateWinningCombinations cat rs)). symbol_c c = s)
     \<longleftrightarrow> s \<in> set (concat (map symbols rs)) \<and> wins cat rs s"
proof
  assume "\<exists>c \<in> set (combinations (calculateWinningCombinations cat rs)). symbol_c c = s"
  then obtain c u where u: "u \<in> set (getUniqueSymbols rs)" and c: "c \<in> set (winningEntries cat rs u)"
    and s: "symbol_c c = s"
    by (auto simp: combinations_eq)
  from in_winningEntries [OF c] s have "u = s" "wins cat rs s" by auto
  with u show "s \<in> set (concat (map symbols rs)) \<and> wins cat rs s"
    by (simp add: set_getUniqueSymbols)
next
  assume a: "s \<in> set (concat (map symbols rs)) \<and> wins cat rs s"
  then have "s \<in> set (getUniqueSymbols rs)" by (simp add: set_getUniqueSymbols)
  moreover from a have "\<exists>c \<in> set (winningEntries cat rs s). symbol_c c = s"
    by (simp add: winningEntries_cases)
  ultimately show "\<exists>c \<in> set (combinations (calculateWinningCombinations cat rs)). symbol_c c = s"
    by (auto simp: combinations_eq)
qed

lemma map_symbol_c_winningEntries:
  "map symbol_c (concat (map (winningEntries cat rs) us)) = filter (wins cat rs) us"
  by (induction us) (auto simp: winningEntries_cases)

lemma distinct_entries: "distinct (map symbol_c (combinations (calculateWinningCombinations cat rs)))"
  by (simp add: combinations_eq map_symbol_c_winningEntries distinct_getUniqueSymbols)

text \<open>The run: one position per reel, for the leading reels that hold a matching cell.\<close>

lemma firstMatch_None: "firstMatch P cs i = None \<longleftrightarrow> (\<forall>c \<in> set cs. \<not> P c)"
  by (induction cs arbitrary: i) auto

lemma firstMatch_Some:
  "firstMatch P cs i = Some (j, c) \<Longrightarrow> i \<le> j \<and> j - i < length cs \<and> cs ! (j - i) = c \<and> P c
     \<and> (\<forall>k < j - i. \<not> P (cs ! k))"
proof (induction cs arbitrary: i)
  case Nil
  then show ?case by simp
next
  case (Cons a cs)
  show ?case
  proof (cases "P a")
    case True
    with Cons.prems show ?thesis by simp
  next
    case False
    with Cons.prems have f: "firstMatch P cs (Suc i) = Some (j, c)" by simp
    from Cons.IH [OF f] have ih: "Suc i \<le> j" "j - Suc i < length cs" "cs ! (j - Suc i) = c" "P c"
      "\<forall>k < j - Suc i. \<not> P (cs ! k)" by auto
    then have e: "j - i = Suc (j - Suc i)" by arith
    from ih False show ?thesis
      unfolding e by (auto simp: nth_Cons split: nat.splits)
  qed
qed

lemma length_findSymbolCombinationFrom:
  "length (findSymbolCombinationFrom cat s rs i)
     = length (takeWhile (\<lambda>reel. \<exists>c \<in> set (symbols reel). matchesTarget cat s c) rs)"
proof (induction rs arbitrary: i)
  case Nil
  then show ?case by simp
next
  case (Cons r rs)
  show ?case
  proof (cases "firstMatch (matchesTarget cat s) (symbols r) 0")
    case None
    then have "\<forall>c \<in> set (symbols r). \<not> matchesTarget cat s c"
      by (simp add: firstMatch_None)
    with None show ?thesis by simp
  next
    case (Some p)
    then have "\<not> (\<forall>c \<in> set (symbols r). \<not> matchesTarget cat s c)"
      using firstMatch_None [of "matchesTarget cat s" "symbols r" 0] by simp
    with Some show ?thesis by (cases p) (simp add: Cons.IH)
  qed
qed

lemma canSubstitute_wild_newCatalog:
  "canSubstitute newCatalog ''wild'' (Sym s) =
     (s \<in> set [''diamond_hands'', ''crypto_wallet'', ''blockchain_block'', ''defi_token'',
                ''nft_collectible'', ''sol'', ''eth'', ''btc'', ''nft_character''])"
  by (auto simp: canSubstitute_def getSpecialBehavior_def newCatalog_def
      initializeSpecialBehaviors_def includesId_def)

lemma getSymbolPayout_btc_3: "getSymbolPayout newCatalog ''btc'' 3 = 5"
  by (simp add: getSymbolPayout_def newCatalog_def initializePayoutTables_def payoutsBySize_def)

lemma getSymbolPayout_wild_3: "getSymbolPayout newCatalog ''wild'' 3 = 0"
  by (simp add: getSymbolPayout_def newCatalog_def initializePayoutTables_def payoutsBySize_def)

text \<open>
  The evaluator only looks at the symbols that occur in the grid. With wilds on the first
  three reels and no \<open>btc\<close> anywhere, the run of \<open>btc\<close> (wilds substituting) has
  length 3 and its payout is 5, but there is no entry for \<open>btc\<close>: the only symbols of
  the grid are the wild, which pays 0, and the scatter.
\<close>

theorem winning_entry_absent_symbol_counterexample:
  "Sym ''btc'' \<noteq> Sym ''scatter''
   \<and> length (findSymbolCombination newCatalog
        [\<lparr>reelIndex = 0, height = 2, symbols = [Sym ''wild'', Sym ''wild'']\<rparr>,
         \<lparr>reelIndex = 1, height = 2, symbols = [Sym ''wild'', Sym ''wild'']\<rparr>,
         \<lparr>reelIndex = 2, height = 2, symbols = [Sym ''wild'', Sym ''wild'']\<rparr>,
         \<lparr>reelIndex = 3, height = 2, symbols = [Sym ''scatter'', Sym ''scatter'']\<rparr>,
         \<lparr>reelIndex = 4, height = 2, symbols = [Sym ''scatter'', Sym ''scatter'']\<rparr>,
         \<lparr>reelIndex = 5, height = 2, symbols = [Sym ''scatter'', Sym ''scatter'']\<rparr>]
        (Sym ''btc'')) = 3
   \<and> getSymbolPayout newCatalog ''btc'' 3 = 5
   \<and> combinations (calculateWinningCombinations newCatalog
        [\<lparr>reelIndex = 0, height = 2, symbols = [Sym ''wild'', Sym ''wild'']\<rparr>,
         \<lparr>reelIndex = 1, height = 2, symbols = [Sym ''wild'', Sym ''wild'']\<rparr>,
         \<lparr>reelIndex = 2, height = 2, symbols = [Sym ''wild'', Sym ''wild'']\<rparr>,
         \<lparr>reelIndex = 3, height = 2, symbols = [Sym ''scatter'', Sym ''scatter'']\<rparr>,
         \<lparr>reelIndex = 4, height = 2, symbols = [Sym ''scatter'', Sym ''scatter'']\<rparr>,
         \<lparr>reelIndex = 5, height = 2, symbols = [Sym ''scatter'', Sym ''scatter'']\<rparr>]) = []"
  by (simp add: findSymbolCombination_def matchesTarget_def canSubstitute_wild_newCatalog
      getSymbolPayout_btc_3 getSymbolPayout_wild_3 combinations_eq getUniqueSymbols_def addUnique_def
      winningEntries_def calculateSymbolPayout_def Let_def numeral_3_eq_3 [symmetric])

text \<open>
  C4, for the symbols of the grid: for every catalog and grid, the result of
  \<open>calculateWinningCombinations\<close> has an entry for a symbol if and only if the symbol
  occurs in the grid, is not the scatter, its run found by \<open>findSymbolCombination\<close> has
  length at least 3, and the payout of the catalog for the symbol at that length is
  greater than 0. The run has one position for each of the leading reels that hold a
  matching cell, the symbol itself or, where the wild substitutes for it, a wild. Every
  entry has a positive payout, the payout of its symbol at its length, so that a run
  whose payout is 0 gives no entry; and no symbol has two entries.
\<close>

theorem winning_entry_iff:
  "((\<exists>c \<in> set (combinations (calculateWinningCombinations cat reelResult)). symbol_c c = s)
      \<longleftrightarrow> s \<in> set (concat (map symbols reelResult)) \<and> s \<noteq> Sym ''scatter''
         \<and> 3 \<le> length (findSymbolCombination cat reelResult s)
         \<and> 0 < getSymbolPayout cat (propertyKey s) (length (findSymbolCombination cat reelResult s)))
   \<and> length (findSymbolCombination cat reelResult s)
       = length (takeWhile (\<lambda>reel. \<exists>c \<in> set (symbols reel). matchesTarget cat s c) reelResult)
   \<and> (\<forall>c \<in> set (combinations (calculateWinningCombinations cat reelResult)).
         0 < basePayout c \<and> 3 \<le> length_c c
         \<and> basePayout c = getSymbolPayout cat (propertyKey (symbol_c c)) (length_c c)
         \<and> positions c = findSymbolCombination cat reelResult (symbol_c c)
         \<and> length_c c = length (positions c))
   \<and> distinct (map symbol_c (combinations (calculateWinningCombinations cat reelResult)))"
proof (intro conjI ballI)
  show "(\<exists>c \<in> set (combinations (calculateWinningCombinations cat reelResult)). symbol_c c = s)
      \<longleftrightarrow> s \<in> set (concat (map symbols reelResult)) \<and> s \<noteq> Sym ''scatter''
         \<and> 3 \<le> length (findSymbolCombination cat reelResult s)
         \<and> 0 < getSymbolPayout cat (propertyKey s) (length (findSymbolCombination cat reelResult s))"
    unfolding entry_iff by (simp add: wins_def calculateSymbolPayout_def)
  show "length (findSymbolCombination cat reelResult s)
       = length (takeWhile (\<lambda>reel. \<exists>c \<in> set (symbols reel). matchesTarget cat s c) reelResult)"
    by (simp add: findSymbolCombination_def length_findSymbolCombinationFrom)
  show "distinct (map symbol_c (combinations (calculateWinningCombinations cat reelResult)))"
    by (rule distinct_entries)
next
  fix c assume "c \<in> set (combinations (calculateWinningCombinations cat reelResult))"
  then obtain u where "c \<in> set (winningEntries cat reelResult u)"
    by (auto simp: combinations_eq)
  from in_winningEntries [OF this]
  have f: "symbol_c c = u" "0 < basePayout c" "3 \<le> length_c c"
    "positions c = findSymbolCombination cat reelResult u" "length_c c = length (positions c)"
    "basePayout c = calculateSymbolPayout cat u (length_c c)"
    by blast+
  show "0 < basePayout c" by (rule f(2))
  show "3 \<le> length_c c" by (rule f(3))
  show "basePayout c = getSymbolPayout cat (propertyKey (symbol_c c)) (length_c c)"
    using f(1,6) by (simp add: calculateSymbolPayout_def)
  show "positions c = findSymbolCombination cat reelResult (symbol_c c)"
    using f(1,4) by simp
  show "length_c c = length (positions c)" by (rule f(5))
qed

theorem winning_entry_iff_witness:
  "Sym ''btc'' \<in> set (concat (map symbols
        [\<lparr>reelIndex = 0, height = 2, symbols = [Sym ''btc'', Sym ''eth'']\<rparr>,
         \<lparr>reelIndex = 1, height = 2, symbols = [Sym ''wild'', Sym ''sol'']\<rparr>,
         \<lparr>reelIndex = 2, height = 2, symbols = [Sym ''btc'', Sym ''sol'']\<rparr>,
         \<lparr>reelIndex = 3, height = 2, symbols = [Sym ''eth'', Sym ''eth'']\<rparr>,
         \<lparr>reelIndex = 4, height = 2, symbols = [Sym ''sol'', Sym ''sol'']\<rparr>,
         \<lparr>reelIndex = 5, height = 2, symbols = [Sym ''sol'', Sym ''sol'']\<rparr>]))
   \<and> length (findSymbolCombination newCatalog
        [\<lparr>reelIndex = 0, height = 2, symbols = [Sym ''btc'', Sym ''eth'']\<rparr>,
         \<lparr>reelIndex = 1, height = 2, symbols = [Sym ''wild'', Sym ''sol'']\<rparr>,
         \<lparr>reelIndex = 2, height = 2, symbols = [Sym ''btc'', Sym ''sol'']\<rparr>,
         \<lparr>reelIndex = 3, height = 2, symbols = [Sym ''eth'', Sym ''eth'']\<rparr>,
         \<lparr>reelIndex = 4, height = 2, symbols = [Sym ''sol'', Sym ''sol'']\<rparr>,
         \<lparr>reelIndex = 5, height = 2, symbols = [Sym ''sol'', Sym ''sol'']\<rparr>]
        (Sym ''btc'')) = 3
   \<and> getSymbolPayout newCatalog (propertyKey (Sym ''btc'')) 3 = 5
   \<and> (\<exists>c \<in> set (combinations (calculateWinningCombinations newCatalog
        [\<lparr>reelIndex = 0, height = 2, symbols = [Sym ''btc'', Sym ''eth'']\<rparr>,
         \<lparr>reelIndex = 1, height = 2, symbols = [Sym ''wild'', Sym ''sol'']\<rparr>,
         \<lparr>reelIndex = 2, height = 2, symbols = [Sym ''btc'', Sym ''sol'']\<rparr>,
         \<lparr>reelIndex = 3, height = 2, symbols = [Sym ''eth'', Sym ''eth'']\<rparr>,
         \<lparr>reelIndex = 4, height = 2, symbols = [Sym ''sol'', Sym ''sol'']\<rparr>,
         \<lparr>reelIndex = 5, height = 2, symbols = [Sym ''sol'', Sym ''sol'']\<rparr>])).
          symbol_c c = Sym ''btc'' \<and> 0 < basePayout c)"
proof -
  let ?g = "[\<lparr>reelIndex = 0, height = 2, symbols = [Sym ''btc'', Sym ''eth'']\<rparr>,
         \<lparr>reelIndex = 1, height = 2, symbols = [Sym ''wild'', Sym ''sol'']\<rparr>,
         \<lparr>reelIndex = 2, height = 2, symbols = [Sym ''btc'', Sym ''sol'']\<rparr>,
         \<lparr>reelIndex = 3, height = 2, symbols = [Sym ''eth'', Sym ''eth'']\<rparr>,
         \<lparr>reelIndex = 4, height = 2, symbols = [Sym ''sol'', Sym ''sol'']\<rparr>,
         \<lparr>reelIndex = 5, height = 2, symbols = [Sym ''sol'', Sym ''sol'']\<rparr>]"
  have m: "Sym ''btc'' \<in> set (concat (map symbols ?g))" by simp
  have l: "length (findSymbolCombination newCatalog ?g (Sym ''btc'')) = 3"
    by (simp add: findSymbolCombination_def matchesTarget_def canSubstitute_wild_newCatalog)
  have p: "getSymbolPayout newCatalog (propertyKey (Sym ''btc'')) 3 = 5"
    by (simp add: getSymbolPayout_btc_3)
  note t = winning_entry_iff [of newCatalog ?g "Sym ''btc''"]
  from t m l p have "\<exists>c \<in> set (combinations (calculateWinningCombinations newCatalog ?g)). symbol_c c = Sym ''btc''"
    by simp
  then obtain c where c: "c \<in> set (combinations (calculateWinningCombinations newCatalog ?g))"
    "symbol_c c = Sym ''btc''" by blast
  with t have "0 < basePayout c" by blast
  with c have "\<exists>c \<in> set (combinations (calculateWinningCombinations newCatalog ?g)).
          symbol_c c = Sym ''btc'' \<and> 0 < basePayout c" by blast
  with m l p show ?thesis by (intro conjI)
qed

section \<open>Properties of the Symbol Catalog\<close>

subsection \<open>Claim C3: the administrative updates\<close>

text \<open>
  What holds of C3: a negative weight is refused, and so is an id that is neither a key
  of the library nor a name that every object inherits; a payout table without a number
  at one of the keys 3, 4, 5, 6 is refused; a refused update returns the catalog as it
  was. Beside the weight 0 two more inputs are not refused: an inherited name such as
  \<open>constructor\<close> passes the guards, and a \<open>null\<close> table for a known symbol raises
  TypeError.
\<close>

lemma updateSymbolWeight_rejects:
  "falsyAt (map_of (symbolLibrary cat)) symbolId \<or> newWeight < 0
     \<Longrightarrow> updateSymbolWeight cat symbolId newWeight = (False, cat)"
  by (simp add: updateSymbolWeight_def)

lemma updateSymbolWeight_unknown:
  "getSymbol cat symbolId = None \<Longrightarrow> symbolId \<notin> set objectPrototypeNames
     \<Longrightarrow> updateSymbolWeight cat symbolId newWeight = (False, cat)"
  by (simp add: updateSymbolWeight_def falsyAt_def getSymbol_def)

lemma updateSymbolWeight_inherited:
  "updateSymbolWeight newCatalog ''constructor'' 5 = (True, newCatalog)"
  by (simp add: updateSymbolWeight_def falsyAt_def objectPrototypeNames_def newCatalog_def
      initializeSymbolLibrary_def regularSymbol_def setWeight_def)

lemma updateSymbolPayouts_rejects:
  assumes "key \<in> {3, 4, 5, 6}" "\<not> isNumber (newPayouts key)"
  shows "updateSymbolPayouts cat symbolId (Some newPayouts) = Inr (False, cat)"
  using assms by (auto simp: updateSymbolPayouts_def Let_def)

lemma isNumber_None: "\<not> isNumber None"
  by (simp add: isNumber_def)

lemma updateSymbolPayouts_unknown:
  "getSymbol cat symbolId = None \<Longrightarrow> symbolId \<notin> set objectPrototypeNames
     \<Longrightarrow> updateSymbolPayouts cat symbolId newPayouts = Inr (False, cat)"
  by (simp add: updateSymbolPayouts_def falsyAt_def getSymbol_def)

lemma updateSymbolPayouts_null:
  "updateSymbolPayouts newCatalog ''btc'' None = Inl TypeError"
  by (simp add: updateSymbolPayouts_def falsyAt_def newCatalog_def initializeSymbolLibrary_def
      regularSymbol_def initializePayoutTables_def)

lemma updateSymbolPayouts_inherited:
  "updateSymbolPayouts newCatalog ''constructor''
     (Some [3 \<mapsto> JNumber 1, 4 \<mapsto> JNumber 2, 5 \<mapsto> JNumber 3, 6 \<mapsto> JNumber 4])
   = Inr (True, newCatalog\<lparr>payoutTables := (payoutTables newCatalog)
       (''constructor'' \<mapsto> numericEntries [3 \<mapsto> JNumber 1, 4 \<mapsto> JNumber 2, 5 \<mapsto> JNumber 3, 6 \<mapsto> JNumber 4])\<rparr>)"
  by (simp add: updateSymbolPayouts_def falsyAt_def objectPrototypeNames_def isNumber_def)

text \<open>
  C3 fails for the weight 0: \<open>updateSymbolWeight\<close> tests \<open>newWeight < 0\<close>, so that
  \<open>updateSymbolWeight('btc', 0)\<close> succeeds and stores the weight 0, which the weight check
  of \<open>validateConfiguration\<close> (\<open>weight <= 0\<close>) then reports as invalid.
\<close>

theorem updateSymbolWeight_accepts_zero:
  "fst (updateSymbolWeight newCatalog ''btc'' 0) = True
   \<and> map_option weight (getSymbol newCatalog ''btc'') = Some 15
   \<and> map_option weight (getSymbol (snd (updateSymbolWeight newCatalog ''btc'' 0)) ''btc'') = Some 0
   \<and> ''btc'' \<in> set (invalidWeightErrors (snd (updateSymbolWeight newCatalog ''btc'' 0)))"
  by (simp add: updateSymbolWeight_def falsyAt_def getSymbol_def newCatalog_def
      initializeSymbolLibrary_def regularSymbol_def setWeight_def invalidWeightErrors_def)

section \<open>Properties of the Cascade Engine\<close>

subsection \<open>Claim C10: \<open>dropSymbolsDown\<close>\<close>

lemma jsonCell_idem: "jsonCell (jsonCell c) = jsonCell c"
  by (simp add: jsonCell_def)

lemma jsonCell_not_Undefined: "jsonCell c \<noteq> Undefined"
  by (simp add: jsonCell_def)

lemma jsonCell_id: "c \<noteq> Undefined \<Longrightarrow> jsonCell c = c"
  by (simp add: jsonCell_def)

lemma map_jsonCell_id: "Undefined \<notin> set cs \<Longrightarrow> map jsonCell cs = cs"
  by (induction cs) (auto simp: jsonCell_id)

text \<open>The array that the loop of \<open>dropReel\<close> builds, slot by slot.\<close>

lemma dropLoop_nth:
  assumes "n \<le> h"
  shows "length (foldl (\<lambda>newSymbols i. newSymbols[h - 1 - i := f i]) (replicate h Undefined) [0..<n]) = h
       \<and> (\<forall>j<h. foldl (\<lambda>newSymbols i. newSymbols[h - 1 - i := f i]) (replicate h Undefined) [0..<n] ! j
             = (if h - n \<le> j then f (h - 1 - j) else Undefined))"
  using assms
proof (induction n)
  case 0
  then show ?case by simp
next
  case (Suc n)
  then have ih: "length (foldl (\<lambda>newSymbols i. newSymbols[h - 1 - i := f i]) (replicate h Undefined) [0..<n]) = h"
    "\<forall>j<h. foldl (\<lambda>newSymbols i. newSymbols[h - 1 - i := f i]) (replicate h Undefined) [0..<n] ! j
             = (if h - n \<le> j then f (h - 1 - j) else Undefined)"
    and n: "n < h"
    by auto
  show ?case
  proof (intro conjI allI impI)
    show "length (foldl (\<lambda>newSymbols i. newSymbols[h - 1 - i := f i]) (replicate h Undefined) [0..<Suc n]) = h"
      using ih(1) by simp
  next
    fix j assume j: "j < h"
    show "foldl (\<lambda>newSymbols i. newSymbols[h - 1 - i := f i]) (replicate h Undefined) [0..<Suc n] ! j
             = (if h - Suc n \<le> j then f (h - 1 - j) else Undefined)"
    proof (cases "j = h - 1 - n")
      case True
      with n j ih(1) show ?thesis by simp
    next
      case False
      with n j ih show ?thesis by (auto simp: nth_list_update)
    qed
  qed
qed

lemma dropLoop_settled:
  "foldl (\<lambda>newSymbols i. newSymbols[h - 1 - i :=
                             (if i < length remaining
                              then remaining ! (length remaining - 1 - i)
                              else Null)])
         (replicate h Undefined) [0..<h] = settled h remaining"
  (is "?l = _")
proof (rule nth_equalityI)
  let ?f = "\<lambda>i. if i < length remaining then remaining ! (length remaining - 1 - i) else Null"
  have L: "length ?l = h" and N: "\<forall>j<h. ?l ! j = ?f (h - 1 - j)"
    using dropLoop_nth [of h h ?f] by simp_all
  show "length ?l = length (settled h remaining)"
    using L by (simp add: settled_def)
  fix j assume "j < length ?l"
  with L have j: "j < h" by simp
  with N have "?l ! j = ?f (h - 1 - j)" by blast
  also have "\<dots> = settled h remaining ! j"
  proof (cases "j < h - length remaining")
    case True
    with j have "\<not> h - 1 - j < length remaining" by arith
    with True show ?thesis by (simp add: settled_def nth_append)
  next
    case False
    with j have "h - 1 - j < length remaining" by arith
    moreover from False j have "length remaining - 1 - (h - 1 - j) = length remaining - h + (j - (h - length remaining))"
      by arith
    ultimately show ?thesis using False j by (simp add: settled_def nth_append)
  qed
  finally show "?l ! j = settled h remaining ! j" .
qed

lemma dropReel_eq:
  "dropReel reel =
     (if height reel < 0 \<or> 2 ^ 32 \<le> height reel then Inl RangeError
      else Inr (reel\<lparr>symbols := settled (nat (height reel)) (filter (\<lambda>symbol. symbol \<noteq> Null) (symbols reel))\<rparr>))"
  unfolding dropReel_def Let_def dropLoop_settled by (rule refl)


lemma settled_length: "length (settled h remaining) = h"
  by (simp add: settled_def)

lemma filter_settled:
  "Null \<notin> set remaining \<Longrightarrow>
     filter (\<lambda>symbol. symbol \<noteq> Null) (settled h remaining) = drop (length remaining - h) remaining"
proof -
  assume a: "Null \<notin> set remaining"
  then have "Null \<notin> set (drop (length remaining - h) remaining)"
    by (auto dest: in_set_dropD)
  then have "filter (\<lambda>symbol. symbol \<noteq> Null) (drop (length remaining - h) remaining)
      = drop (length remaining - h) remaining"
    by (auto intro!: filter_True)
  then show ?thesis by (simp add: settled_def)
qed

lemma settled_settled:
  "Null \<notin> set remaining \<Longrightarrow>
     settled h (filter (\<lambda>symbol. symbol \<noteq> Null) (settled h remaining)) = settled h remaining"
  by (simp add: filter_settled) (simp add: settled_def)

lemma settled_Undefined: "Undefined \<notin> set remaining \<Longrightarrow> Undefined \<notin> set (settled h remaining)"
  by (auto simp: settled_def dest: in_set_dropD)

lemma settled_nulls_above:
  assumes "Null \<notin> set remaining" "a < length (settled h remaining)" "b < length (settled h remaining)"
    "settled h remaining ! a = Null" "settled h remaining ! b \<noteq> Null"
  shows "a < b"
proof (rule ccontr)
  assume "\<not> a < b"
  then have ba: "b \<le> a" by simp
  from assms(5) assms(3) have "\<not> b < h - length remaining"
    by (auto simp: settled_def nth_append)
  with ba have na: "\<not> a < h - length remaining" by simp
  let ?d = "drop (length remaining - h) remaining"
  from na have e: "settled h remaining ! a = ?d ! (a - (h - length remaining))"
    by (simp add: settled_def nth_append)
  from assms(2) na have "a - (h - length remaining) < length ?d"
    by (simp add: settled_def)
  then have "?d ! (a - (h - length remaining)) \<in> set ?d" by (rule nth_mem)
  with e have "settled h remaining ! a \<in> set (drop (length remaining - h) remaining)"
    by simp
  then have "settled h remaining ! a \<in> set remaining" by (rule in_set_dropD)
  with assms(1,4) show False by simp
qed

lemma dropEach_Inr_iff:
  "dropEach rs = Inr ds \<longleftrightarrow> length ds = length rs \<and> (\<forall>i<length rs. dropReel (rs ! i) = Inr (ds ! i))"
proof (induction rs arbitrary: ds)
  case Nil
  then show ?case by auto
next
  case (Cons r rs)
  show ?case
  proof (cases ds)
    case Nil
    then show ?thesis by (auto split: sum.splits)
  next
    case (Cons d ds')
    have "(\<forall>i<Suc (length rs). dropReel ((r # rs) ! i) = Inr ((d # ds') ! i))
        \<longleftrightarrow> dropReel r = Inr d \<and> (\<forall>i<length rs. dropReel (rs ! i) = Inr (ds' ! i))"
      by (auto simp: nth_Cons split: nat.splits)
    with Cons Cons.IH [of ds'] show ?thesis
      by (auto split: sum.splits)
  qed
qed

lemma dropEach_total:
  "\<forall>reel \<in> set rs. 0 \<le> height reel \<and> height reel < 2 ^ 32 \<Longrightarrow> \<exists>ds. dropEach rs = Inr ds"
  by (induction rs) (auto simp: dropReel_eq)

lemma filter_jsonCell:
  "filter (\<lambda>symbol. symbol \<noteq> Null) (map jsonCell cs) = filter (\<lambda>c. c \<noteq> Null \<and> c \<noteq> Undefined) cs"
  by (induction cs) (auto simp: jsonCell_def)

lemma jsonCopy_length: "length (jsonCopy rs) = length rs"
  by (simp add: jsonCopy_def)

lemma jsonCopy_nth:
  "i < length rs \<Longrightarrow> jsonCopy rs ! i = (rs ! i)\<lparr>symbols := map jsonCell (symbols (rs ! i))\<rparr>"
  by (simp add: jsonCopy_def)

text \<open>One reel of the result of \<open>dropSymbolsDown\<close>.\<close>

lemma dropSymbolsDown_nth:
  assumes "dropSymbolsDown grid = Inr dropped" "i < length grid"
  shows "0 \<le> height (grid ! i) \<and> height (grid ! i) < 2 ^ 32
       \<and> dropped ! i = (grid ! i)\<lparr>symbols :=
            settled (nat (height (grid ! i))) (filter (\<lambda>c. c \<noteq> Null \<and> c \<noteq> Undefined) (symbols (grid ! i)))\<rparr>"
proof -
  from assms have "dropReel (jsonCopy grid ! i) = Inr (dropped ! i)"
    by (simp add: dropSymbolsDown_def dropEach_Inr_iff jsonCopy_length)
  with assms(2) show ?thesis
    by (auto simp: jsonCopy_nth dropReel_eq filter_jsonCell split: if_splits)
qed

lemma dropSymbolsDown_length:
  "dropSymbolsDown grid = Inr dropped \<Longrightarrow> length dropped = length grid"
  by (simp add: dropSymbolsDown_def dropEach_Inr_iff jsonCopy_length)

lemma dropSymbolsDown_fixed:
  assumes "dropSymbolsDown grid = Inr dropped"
  shows "dropSymbolsDown dropped = Inr dropped"
proof -
  have len: "length dropped = length grid" by (rule dropSymbolsDown_length [OF assms])
  have "dropReel (jsonCopy dropped ! i) = Inr (dropped ! i)" if i: "i < length dropped" for i
  proof -
    let ?r = "grid ! i"
    let ?rem = "filter (\<lambda>c. c \<noteq> Null \<and> c \<noteq> Undefined) (symbols ?r)"
    let ?h = "nat (height ?r)"
    from i len have ig: "i < length grid" by simp
    from dropSymbolsDown_nth [OF assms ig]
    have h: "0 \<le> height ?r" "height ?r < 2 ^ 32"
      and d: "dropped ! i = ?r\<lparr>symbols := settled ?h ?rem\<rparr>"
      by simp_all
    have nn: "Null \<notin> set ?rem" and nu: "Undefined \<notin> set ?rem" by simp_all
    from nu have "Undefined \<notin> set (settled ?h ?rem)" by (rule settled_Undefined)
    then have j: "map jsonCell (settled ?h ?rem) = settled ?h ?rem" by (rule map_jsonCell_id)
    have "jsonCopy dropped ! i = dropped ! i"
      using i by (simp add: jsonCopy_nth d j)
    then show ?thesis
      using h by (simp add: d dropReel_eq settled_settled [OF nn])
  qed
  then show ?thesis
    by (simp add: dropSymbolsDown_def dropEach_Inr_iff jsonCopy_length)
qed

text \<open>
  C10 fails for a reel that does not hold as many cells as its height, because the new
  symbol array is made with \<open>new Array(reel.height)\<close>: a reel of height 2 that holds the
  three symbols \<open>btc\<close>, \<open>eth\<close>, \<open>sol\<close> comes out with the two cells \<open>eth\<close>, \<open>sol\<close>. The
  length of its symbol array has changed, and \<open>btc\<close> is lost.
\<close>

theorem dropSymbolsDown_short_height_counterexample:
  "dropSymbolsDown [\<lparr>reelIndex = 0, height = 2, symbols = [Sym ''btc'', Sym ''eth'', Sym ''sol'']\<rparr>]
     = Inr [\<lparr>reelIndex = 0, height = 2, symbols = [Sym ''eth'', Sym ''sol'']\<rparr>]
   \<and> length [Sym ''eth'', Sym ''sol''] \<noteq> length [Sym ''btc'', Sym ''eth'', Sym ''sol'']
   \<and> filter (\<lambda>c. c \<noteq> Null) [Sym ''eth'', Sym ''sol'']
       \<noteq> filter (\<lambda>c. c \<noteq> Null) [Sym ''btc'', Sym ''eth'', Sym ''sol'']"
  by (simp add: dropSymbolsDown_def jsonCopy_def jsonCell_def dropReel_eq settled_def eval_nat_numeral)

text \<open>
  C10, for the reels that hold as many cells as their height: \<open>dropSymbolsDown\<close> returns
  for every grid whose heights are array lengths, and whenever it returns, applying it
  again to the result returns the same result; every reel keeps its height, and in every
  reel of the result each \<open>null\<close> cell lies above each cell that is not \<open>null\<close>. The
  symbol array of a reel of the result has as many cells as the height, and its cells
  that are not \<open>null\<close> are the last symbols of the input reel, as many as fit, in their
  order. So a reel that holds as many cells as its height, as every reel of a populated
  grid does, keeps the length of its symbol array, and the cells of the result that are
  not \<open>null\<close> are all the symbols of the input, in the same order.
\<close>

theorem dropSymbolsDown_idempotent_shape:
  "((\<forall>reel \<in> set grid. 0 \<le> height reel \<and> height reel < 2 ^ 32) \<longrightarrow> (\<exists>dropped. dropSymbolsDown grid = Inr dropped))
   \<and> (\<forall>dropped. dropSymbolsDown grid = Inr dropped \<longrightarrow>
        dropSymbolsDown dropped = Inr dropped
      \<and> length dropped = length grid
      \<and> (\<forall>i<length grid.
           height (dropped ! i) = height (grid ! i)
         \<and> (\<forall>a b. a < length (symbols (dropped ! i)) \<and> b < length (symbols (dropped ! i))
                 \<and> symbols (dropped ! i) ! a = Null \<and> symbols (dropped ! i) ! b \<noteq> Null \<longrightarrow> a < b)
         \<and> int (length (symbols (dropped ! i))) = height (grid ! i)
         \<and> filter (\<lambda>c. c \<noteq> Null) (symbols (dropped ! i))
             = drop (length (filter (\<lambda>c. c \<noteq> Null \<and> c \<noteq> Undefined) (symbols (grid ! i)))
                       - nat (height (grid ! i)))
                 (filter (\<lambda>c. c \<noteq> Null \<and> c \<noteq> Undefined) (symbols (grid ! i)))
         \<and> (int (length (symbols (grid ! i))) = height (grid ! i) \<longrightarrow>
               length (symbols (dropped ! i)) = length (symbols (grid ! i))
             \<and> filter (\<lambda>c. c \<noteq> Null) (symbols (dropped ! i))
                 = filter (\<lambda>c. c \<noteq> Null \<and> c \<noteq> Undefined) (symbols (grid ! i)))))"
proof (intro conjI impI allI)
  assume "\<forall>reel \<in> set grid. 0 \<le> height reel \<and> height reel < 2 ^ 32"
  then have "\<forall>reel \<in> set (jsonCopy grid). 0 \<le> height reel \<and> height reel < 2 ^ 32"
    by (auto simp: jsonCopy_def)
  then show "\<exists>dropped. dropSymbolsDown grid = Inr dropped"
    unfolding dropSymbolsDown_def by (rule dropEach_total)
next
  fix dropped assume d: "dropSymbolsDown grid = Inr dropped"
  show "dropSymbolsDown dropped = Inr dropped" by (rule dropSymbolsDown_fixed [OF d])
  show "length dropped = length grid" by (rule dropSymbolsDown_length [OF d])
next
  fix dropped i assume d: "dropSymbolsDown grid = Inr dropped" and i: "i < length grid"
  let ?r = "grid ! i"
  let ?rem = "filter (\<lambda>c. c \<noteq> Null \<and> c \<noteq> Undefined) (symbols ?r)"
  let ?h = "nat (height ?r)"
  from dropSymbolsDown_nth [OF d i]
  have h: "0 \<le> height ?r" and e: "dropped ! i = ?r\<lparr>symbols := settled ?h ?rem\<rparr>"
    by simp_all
  have nn: "Null \<notin> set ?rem" by simp
  show "height (dropped ! i) = height (grid ! i)" by (simp add: e)
  show "int (length (symbols (dropped ! i))) = height (grid ! i)"
    using h by (simp add: e settled_length)
  show "filter (\<lambda>c. c \<noteq> Null) (symbols (dropped ! i)) = drop (length ?rem - ?h) ?rem"
    by (simp add: e filter_settled [OF nn])
  {
    fix a b
    assume "a < length (symbols (dropped ! i)) \<and> b < length (symbols (dropped ! i))
                 \<and> symbols (dropped ! i) ! a = Null \<and> symbols (dropped ! i) ! b \<noteq> Null"
    then show "a < b"
      using settled_nulls_above [OF nn, of a ?h b] by (simp add: e)
  }
  {
    assume l: "int (length (symbols (grid ! i))) = height (grid ! i)"
    then have lh: "length (symbols ?r) = ?h" by simp
    show "length (symbols (dropped ! i)) = length (symbols (grid ! i))"
      by (simp add: e settled_length lh)
    have "length ?rem \<le> length (symbols ?r)" by (rule length_filter_le)
    with lh have "length ?rem - ?h = 0" by simp
    then show "filter (\<lambda>c. c \<noteq> Null) (symbols (dropped ! i)) = ?rem"
      by (simp add: e filter_settled [OF nn])
  }
qed

theorem dropSymbolsDown_idempotent_shape_witness:
  "list_all (\<lambda>reel. 0 \<le> height reel \<and> height reel < 2 ^ 32)
     [\<lparr>reelIndex = 0, height = 4, symbols = [Null, Sym ''eth'', Null, Sym ''sol'']\<rparr>,
      \<lparr>reelIndex = 1, height = 3, symbols = [Sym ''btc'', Null, Sym ''sol'']\<rparr>]
   \<and> dropSymbolsDown [\<lparr>reelIndex = 0, height = 4, symbols = [Null, Sym ''eth'', Null, Sym ''sol'']\<rparr>,
                       \<lparr>reelIndex = 1, height = 3, symbols = [Sym ''btc'', Null, Sym ''sol'']\<rparr>]
       = Inr [\<lparr>reelIndex = 0, height = 4, symbols = [Null, Null, Sym ''eth'', Sym ''sol'']\<rparr>,
              \<lparr>reelIndex = 1, height = 3, symbols = [Null, Sym ''btc'', Sym ''sol'']\<rparr>]
   \<and> dropSymbolsDown [\<lparr>reelIndex = 0, height = 4, symbols = [Null, Null, Sym ''eth'', Sym ''sol'']\<rparr>,
                       \<lparr>reelIndex = 1, height = 3, symbols = [Null, Sym ''btc'', Sym ''sol'']\<rparr>]
       = Inr [\<lparr>reelIndex = 0, height = 4, symbols = [Null, Null, Sym ''eth'', Sym ''sol'']\<rparr>,
              \<lparr>reelIndex = 1, height = 3, symbols = [Null, Sym ''btc'', Sym ''sol'']\<rparr>]
   \<and> (0::nat) < 2
   \<and> int (length [Null, Sym ''eth'', Null, Sym ''sol'']) = 4"
proof -
  let ?grid = "[\<lparr>reelIndex = 0, height = 4, symbols = [Null, Sym ''eth'', Null, Sym ''sol'']\<rparr>,
                \<lparr>reelIndex = 1, height = 3, symbols = [Sym ''btc'', Null, Sym ''sol'']\<rparr>]"
  let ?dropped = "[\<lparr>reelIndex = 0, height = 4, symbols = [Null, Null, Sym ''eth'', Sym ''sol'']\<rparr>,
                   \<lparr>reelIndex = 1, height = 3, symbols = [Null, Sym ''btc'', Sym ''sol'']\<rparr>]"
  have e: "dropSymbolsDown ?grid = Inr ?dropped"
    by (simp add: dropSymbolsDown_def jsonCopy_def jsonCell_def dropReel_eq settled_def eval_nat_numeral)
  with dropSymbolsDown_idempotent_shape [of ?grid]
  have "dropSymbolsDown ?dropped = Inr ?dropped" by blast
  with e show ?thesis by simp
qed

subsection \<open>The loop of \<open>processCascadingReels\<close>\<close>

lemma roundsOk_nth:
  "roundsOk b rs \<Longrightarrow> i < length rs \<Longrightarrow>
     level (rs ! i) = i \<and> multiplier (rs ! i) = cascadeMultipliers ! min i 6
     \<and> levelPayout (rs ! i)
         = (if i = 0 then calculateTotalPayout (winningCombinations (rs ! i)) b
            else numberMultiply (calculateTotalPayout (winningCombinations (rs ! i)) b)
                   (Finite (multiplier (rs ! i))))
     \<and> totalPayout (rs ! i) = foldl numberAdd (Finite 0) (map levelPayout (take (Suc i) rs))"
  by (simp add: roundsOk_def list_all_iff)

lemma roundsOk_snoc:
  assumes "roundsOk b rs"
    and "level r = length rs" "multiplier r = cascadeMultipliers ! min (length rs) 6"
    and "levelPayout r
           = (if length rs = 0 then calculateTotalPayout (winningCombinations r) b
              else numberMultiply (calculateTotalPayout (winningCombinations r) b) (Finite (multiplier r)))"
    and "totalPayout r = numberAdd (foldl numberAdd (Finite 0) (map levelPayout rs)) (levelPayout r)"
  shows "roundsOk b (rs @ [r])"
  unfolding roundsOk_def list_all_iff
proof
  fix i assume "i \<in> set [0..<length (rs @ [r])]"
  then have "i < length rs \<or> i = length rs" by auto
  then show "level ((rs @ [r]) ! i) = i
                  \<and> multiplier ((rs @ [r]) ! i) = cascadeMultipliers ! min i 6
                  \<and> levelPayout ((rs @ [r]) ! i)
                      = (if i = 0 then calculateTotalPayout (winningCombinations ((rs @ [r]) ! i)) b
                         else numberMultiply (calculateTotalPayout (winningCombinations ((rs @ [r]) ! i)) b)
                                (Finite (multiplier ((rs @ [r]) ! i))))
                  \<and> totalPayout ((rs @ [r]) ! i)
                      = foldl numberAdd (Finite 0) (map levelPayout (take (Suc i) (rs @ [r])))"
  proof
    assume i: "i < length rs"
    with roundsOk_nth [OF assms(1) i] show ?thesis by (auto simp: nth_append)
  next
    assume "i = length rs"
    with assms(2-5) show ?thesis by simp
  qed
qed

lemma cascadeLoop_rounds:
  "loopInv betAmount st \<Longrightarrow> cascadeLoop cat vrfNumber betAmount st = Inr st' \<Longrightarrow>
     length (cascadeResults st') \<le> Suc maxCascades
     \<and> roundsOk betAmount (cascadeResults st')
     \<and> totalWinnings_v st' = foldl numberAdd (Finite 0) (map levelPayout (cascadeResults st'))"
proof (induction cat vrfNumber betAmount st rule: cascadeLoop.induct)
  case (1 cat vrfNumber betAmount st)
  note inv = "1.prems"(1) and run = "1.prems"(2)
  from inv have len: "length (cascadeResults st) = Suc (cascadeLevel st)"
    and lvl: "cascadeLevel st \<le> maxCascades"
    and ok: "roundsOk betAmount (cascadeResults st)"
    and tot: "totalWinnings_v st = foldl numberAdd (Finite 0) (map levelPayout (cascadeResults st))"
    by (simp_all add: loopInv_def)
  show ?case
  proof (cases "hasWins (currentWins st) \<and> cascadeLevel st < maxCascades")
    case False
    with run have "st' = st" by (subst (asm) cascadeLoop.simps) simp
    with len lvl ok tot show ?thesis by simp
  next
    case True
    let ?removed = "removeWinningSymbols (currentReels st) (combinations (currentWins st))"
    from True run obtain dropped where dr: "dropSymbolsDown ?removed = Inr dropped"
      by (subst (asm) cascadeLoop.simps) (auto simp: Let_def split: sum.splits)
    from True run dr obtain refilled where rf: "generateNewSymbols cat dropped vrfNumber (vrfOffset st) = Inr refilled"
      by (subst (asm) cascadeLoop.simps) (auto simp: Let_def split: sum.splits)
    let ?wins = "calculateWinningCombinations cat refilled"
    show ?thesis
    proof (cases "hasWins ?wins")
      case False
      with True run dr rf
      have "st' = st\<lparr>currentReels := refilled,
                      vrfOffset := vrfOffset st + calculateVrfBitsNeeded refilled,
                      cascadeLevel := cascadeLevel st + 1\<rparr>"
        by (subst (asm) cascadeLoop.simps) (simp add: Let_def)
      with len lvl ok tot show ?thesis by simp
    next
      case w: True
      let ?lvl = "cascadeLevel st + 1"
      let ?m = "cascadeMultipliers ! min ?lvl (length cascadeMultipliers - 1)"
      let ?p = "numberMultiply (calculateTotalPayout (combinations ?wins) betAmount) (Finite ?m)"
      let ?r = "\<lparr>level = ?lvl, reelState = jsonCopy refilled, winningCombinations = combinations ?wins,
                 multiplier = ?m, levelPayout = ?p,
                 totalPayout = numberAdd (totalWinnings_v st) ?p\<rparr>"
      let ?st = "\<lparr>cascadeResults = cascadeResults st @ [?r], currentReels = refilled,
                  vrfOffset = vrfOffset st + calculateVrfBitsNeeded refilled, cascadeLevel = ?lvl,
                  totalWinnings_v = numberAdd (totalWinnings_v st) ?p, currentWins = ?wins\<rparr>"
      from True run dr rf w have next_run: "cascadeLoop cat vrfNumber betAmount ?st = Inr st'"
        by (subst (asm) cascadeLoop.simps) (simp add: Let_def)
      have "min ?lvl (length cascadeMultipliers - 1) = min (length (cascadeResults st)) 6"
        by (simp add: len cascadeMultipliers_def)
      then have m6: "?m = cascadeMultipliers ! min (length (cascadeResults st)) 6"
        by (rule arg_cong)
      have r1: "level ?r = length (cascadeResults st)" by (simp add: len)
      have r2: "multiplier ?r = cascadeMultipliers ! min (length (cascadeResults st)) 6"
        using m6 by (simp only: cascade_round.select_convs)
      have r3: "levelPayout ?r
           = (if length (cascadeResults st) = 0
              then calculateTotalPayout (winningCombinations ?r) betAmount
              else numberMultiply (calculateTotalPayout (winningCombinations ?r) betAmount)
                     (Finite (multiplier ?r)))"
        by (simp add: len)
      have r4: "totalPayout ?r
           = numberAdd (foldl numberAdd (Finite 0) (map levelPayout (cascadeResults st))) (levelPayout ?r)"
        by (simp add: tot)
      have "roundsOk betAmount (cascadeResults st @ [?r])"
        using ok r1 r2 r3 r4 by (rule roundsOk_snoc)
      with True len tot have inv': "loopInv betAmount ?st"
        by (simp add: loopInv_def)
      from "1.IH" [OF True refl refl dr rf refl refl w refl refl refl refl inv' next_run]
      show ?thesis .
    qed
  qed
qed

subsection \<open>The bit offset of the refills\<close>

lemma selectSymbol_not_Null: "selectSymbol pool bits \<noteq> Null"
  by (simp add: selectSymbol_def Let_def)

lemma fillSymbols_no_Null:
  "fillSymbols pool vrfNumber cs off = Inr (cs', off') \<Longrightarrow> Null \<notin> set cs'"
proof (induction cs arbitrary: off cs' off')
  case Nil
  then show ?case by simp
next
  case (Cons c cs)
  then show ?case
    by (auto simp: selectSymbol_not_Null selectSymbol_not_Null [THEN not_sym]
        split: if_splits sum.splits prod.splits)
qed

lemma fillEach_no_Null:
  "fillEach pool vrfNumber rs off = Inr (rs', off') \<Longrightarrow> Null \<notin> set (concat (map symbols rs'))"
proof (induction rs arbitrary: off rs' off')
  case Nil
  then show ?case by simp
next
  case (Cons r rs)
  then show ?case
    by (fastforce split: sum.splits prod.splits dest: fillSymbols_no_Null)
qed

lemma generateNewSymbols_bits_needed:
  "generateNewSymbols cat reelResult vrfNumber off = Inr refilled \<Longrightarrow> calculateVrfBitsNeeded refilled = 0"
proof -
  assume "generateNewSymbols cat reelResult vrfNumber off = Inr refilled"
  then obtain off' where
    "fillEach (createWeightedSymbolArray cat True []) vrfNumber (jsonCopy reelResult) off = Inr (refilled, off')"
    by (auto simp: generateNewSymbols_def split: sum.splits prod.splits)
  then have "Null \<notin> set (concat (map symbols refilled))" by (rule fillEach_no_Null)
  then have "filter (\<lambda>symbol. symbol = Null) (concat (map symbols refilled)) = []"
    by (auto simp: filter_empty_conv)
  then show ?thesis by (simp add: calculateVrfBitsNeeded_def)
qed

text \<open>
  After a refill no cell is \<open>null\<close>, so that the number of bits the loop adds to
  \<open>vrfOffset\<close> is 0: the offset that the loop passes to \<open>generateNewSymbols\<close> is the
  same in every round.
\<close>

lemma cascadeLoop_vrfOffset:
  "cascadeLoop cat vrfNumber betAmount st = Inr st' \<Longrightarrow> vrfOffset st' = vrfOffset st"
proof (induction cat vrfNumber betAmount st rule: cascadeLoop.induct)
  case (1 cat vrfNumber betAmount st)
  note run = "1.prems"
  show ?case
  proof (cases "hasWins (currentWins st) \<and> cascadeLevel st < maxCascades")
    case False
    with run have "st' = st" by (subst (asm) cascadeLoop.simps) simp
    then show ?thesis by simp
  next
    case True
    let ?removed = "removeWinningSymbols (currentReels st) (combinations (currentWins st))"
    from True run obtain dropped where dr: "dropSymbolsDown ?removed = Inr dropped"
      by (subst (asm) cascadeLoop.simps) (auto simp: Let_def split: sum.splits)
    from True run dr obtain refilled where rf: "generateNewSymbols cat dropped vrfNumber (vrfOffset st) = Inr refilled"
      by (subst (asm) cascadeLoop.simps) (auto simp: Let_def split: sum.splits)
    have z: "calculateVrfBitsNeeded refilled = 0" by (rule generateNewSymbols_bits_needed [OF rf])
    let ?wins = "calculateWinningCombinations cat refilled"
    show ?thesis
    proof (cases "hasWins ?wins")
      case False
      with True run dr rf
      have "st' = st\<lparr>currentReels := refilled,
                      vrfOffset := vrfOffset st + calculateVrfBitsNeeded refilled,
                      cascadeLevel := cascadeLevel st + 1\<rparr>"
        by (subst (asm) cascadeLoop.simps) (simp add: Let_def)
      with z show ?thesis by simp
    next
      case w: True
      let ?lvl = "cascadeLevel st + 1"
      let ?m = "cascadeMultipliers ! min ?lvl (length cascadeMultipliers - 1)"
      let ?p = "numberMultiply (calculateTotalPayout (combinations ?wins) betAmount) (Finite ?m)"
      let ?r = "\<lparr>level = ?lvl, reelState = jsonCopy refilled, winningCombinations = combinations ?wins,
                 multiplier = ?m, levelPayout = ?p,
                 totalPayout = numberAdd (totalWinnings_v st) ?p\<rparr>"
      let ?st = "\<lparr>cascadeResults = cascadeResults st @ [?r], currentReels = refilled,
                  vrfOffset = vrfOffset st + calculateVrfBitsNeeded refilled, cascadeLevel = ?lvl,
                  totalWinnings_v = numberAdd (totalWinnings_v st) ?p, currentWins = ?wins\<rparr>"
      from True run dr rf w have next_run: "cascadeLoop cat vrfNumber betAmount ?st = Inr st'"
        by (subst (asm) cascadeLoop.simps) (simp add: Let_def)
      from "1.IH" [OF True refl refl dr rf refl refl w refl refl refl refl next_run]
      have "vrfOffset st' = vrfOffset ?st" .
      with z show ?thesis by simp
    qed
  qed
qed

subsection \<open>The function returns\<close>

lemma heights_jsonCopy: "map height (jsonCopy rs) = map height rs"
  by (simp add: jsonCopy_def)

lemma heights_removeWinningSymbols: "map height (removeWinningSymbols rs cs) = map height rs"
proof -
  have "map height (map (\<lambda>(i, r). r\<lparr>symbols := f i r\<rparr>) (enumerate n xs)) = map height xs" for f n and xs :: "reel list"
    by (induction xs arbitrary: n) simp_all
  then show ?thesis
    by (simp add: removeWinningSymbols_def Let_def heights_jsonCopy)
qed

lemma arrayHeights_map: "map height rs = map height rs' \<Longrightarrow> arrayHeights rs = arrayHeights rs'"
proof -
  assume a: "map height rs = map height rs'"
  have "arrayHeights xs = list_all (\<lambda>h. 0 \<le> h \<and> h < 2 ^ 32) (map height xs)" for xs
    by (simp add: arrayHeights_def list_all_iff)
  with a show ?thesis by simp
qed

lemma dropSymbolsDown_total: "arrayHeights rs \<Longrightarrow> \<exists>d. dropSymbolsDown rs = Inr d"
  unfolding dropSymbolsDown_def
  by (rule dropEach_total) (auto simp: arrayHeights_def list_all_iff jsonCopy_def)

lemma heights_dropSymbolsDown: "dropSymbolsDown rs = Inr d \<Longrightarrow> map height d = map height rs"
proof (rule nth_equalityI)
  assume a: "dropSymbolsDown rs = Inr d"
  then show "length (map height d) = length (map height rs)"
    by (simp add: dropSymbolsDown_length)
  fix i assume "i < length (map height d)"
  with a have i: "i < length rs" by (simp add: dropSymbolsDown_length)
  from dropSymbolsDown_nth [OF a i] have "height (d ! i) = height (rs ! i)" by simp
  with i a show "map height d ! i = map height rs ! i"
    by (simp add: dropSymbolsDown_length)
qed

lemma fillSymbols_total:
  "BigInt vrfNumber = Inr v \<Longrightarrow> \<exists>cs' off'. fillSymbols pool vrfNumber cs off = Inr (cs', off')"
proof (induction cs arbitrary: off)
  case Nil
  then show ?case by simp
next
  case (Cons c cs)
  from Cons.prems obtain b where b: "extractBits vrfNumber off 8 = Inr b"
    using extractBits_total by blast
  from Cons.IH [OF Cons.prems, of "off + 8"] Cons.IH [OF Cons.prems, of off] b
  show ?case by (cases "c = Null") auto
qed

lemma fillEach_total:
  "BigInt vrfNumber = Inr v \<Longrightarrow>
     \<exists>rs' off'. fillEach pool vrfNumber rs off = Inr (rs', off') \<and> map height rs' = map height rs"
proof (induction rs arbitrary: off)
  case Nil
  then show ?case by simp
next
  case (Cons r rs)
  from fillSymbols_total [OF Cons.prems] obtain cs' off1 where
    f: "fillSymbols pool vrfNumber (symbols r) off = Inr (cs', off1)" by blast
  from Cons.IH [OF Cons.prems, of off1] obtain rs' off2 where
    "fillEach pool vrfNumber rs off1 = Inr (rs', off2)" "map height rs' = map height rs" by blast
  with f show ?case by simp
qed

lemma generateNewSymbols_total:
  "BigInt vrfNumber = Inr v \<Longrightarrow>
     \<exists>refilled. generateNewSymbols cat rs vrfNumber off = Inr refilled \<and> map height refilled = map height rs"
proof -
  assume "BigInt vrfNumber = Inr v"
  from fillEach_total [OF this, of "createWeightedSymbolArray cat True []" "jsonCopy rs" off]
  show ?thesis by (auto simp: generateNewSymbols_def heights_jsonCopy)
qed

lemma cascadeLoop_total:
  "BigInt vrfNumber = Inr v \<Longrightarrow> arrayHeights (currentReels st) \<Longrightarrow>
     \<exists>st'. cascadeLoop cat vrfNumber betAmount st = Inr st'"
proof (induction cat vrfNumber betAmount st rule: cascadeLoop.induct)
  case (1 cat vrfNumber betAmount st)
  note big = "1.prems"(1) and hs = "1.prems"(2)
  show ?case
  proof (cases "hasWins (currentWins st) \<and> cascadeLevel st < maxCascades")
    case False
    then have "cascadeLoop cat vrfNumber betAmount st = Inr st"
      by (subst cascadeLoop.simps) (simp only: if_False)
    then show ?thesis by blast
  next
    case True
    let ?removed = "removeWinningSymbols (currentReels st) (combinations (currentWins st))"
    have "arrayHeights ?removed"
      using hs arrayHeights_map [OF heights_removeWinningSymbols] by simp
    then obtain dropped where dr: "dropSymbolsDown ?removed = Inr dropped"
      using dropSymbolsDown_total by blast
    from generateNewSymbols_total [OF big] obtain refilled where
      rf: "generateNewSymbols cat dropped vrfNumber (vrfOffset st) = Inr refilled"
      and hr: "map height refilled = map height dropped" by blast
    have "map height refilled = map height (currentReels st)"
      using hr heights_dropSymbolsDown [OF dr] heights_removeWinningSymbols by simp
    with hs have hs': "arrayHeights refilled" using arrayHeights_map by blast
    let ?wins = "calculateWinningCombinations cat refilled"
    show ?thesis
    proof (cases "hasWins ?wins")
      case False
      with True dr rf show ?thesis
        by (subst cascadeLoop.simps) (simp add: Let_def)
    next
      case w: True
      let ?lvl = "cascadeLevel st + 1"
      let ?m = "cascadeMultipliers ! min ?lvl (length cascadeMultipliers - 1)"
      let ?p = "numberMultiply (calculateTotalPayout (combinations ?wins) betAmount) (Finite ?m)"
      let ?r = "\<lparr>level = ?lvl, reelState = jsonCopy refilled, winningCombinations = combinations ?wins,
                 multiplier = ?m, levelPayout = ?p,
                 totalPayout = numberAdd (totalWinnings_v st) ?p\<rparr>"
      let ?st = "\<lparr>cascadeResults = cascadeResults st @ [?r], currentReels = refilled,
                  vrfOffset = vrfOffset st + calculateVrfBitsNeeded refilled, cascadeLevel = ?lvl,
                  totalWinnings_v = numberAdd (totalWinnings_v st) ?p, currentWins = ?wins\<rparr>"
      have "arrayHeights (currentReels ?st)" using hs' by simp
      from "1.IH" [OF True refl refl dr rf refl refl w refl refl refl refl big this]
      obtain st' where "cascadeLoop cat vrfNumber betAmount ?st = Inr st'" by blast
      with True dr rf w show ?thesis
        by (subst cascadeLoop.simps) (simp add: Let_def)
    qed
  qed
qed

lemma processCascadingReels_total:
  assumes "BigInt vrfNumber = Inr v" "arrayHeights grid"
  shows "\<exists>res. processCascadingReels cat grid vrfNumber betArg = Inr res"
proof -
  let ?b = "case betArg of None \<Rightarrow> Finite 1 | Some b \<Rightarrow> b"
  have h: "arrayHeights (jsonCopy grid)"
    using assms(2) arrayHeights_map [OF heights_jsonCopy] by simp
  have "\<exists>st'. cascadeLoop cat vrfNumber ?b st = Inr st'" if "currentReels st = jsonCopy grid" for st
    using cascadeLoop_total [OF assms(1), of st] h that by simp
  then show ?thesis
    unfolding processCascadingReels_def Let_def
    by (auto split: sum.splits if_splits) (metis cascade_state.select_convs(2) cascade_state.update_convs(1,5) Inl_Inr_False)+
qed

lemma processCascadingReels_rounds:
  assumes "processCascadingReels cat grid vrfNumber betArg = Inr res"
  shows "length (cascades res) \<le> 7 \<and> totalCascades res = length (cascades res)
       \<and> roundsOk (case betArg of None \<Rightarrow> Finite 1 | Some b \<Rightarrow> b) (cascades res)
       \<and> totalWinnings res = foldl numberAdd (Finite 0) (map levelPayout (cascades res))"
proof -
  let ?b = "case betArg of None \<Rightarrow> Finite 1 | Some b \<Rightarrow> b"
  let ?g = "jsonCopy grid"
  let ?w = "calculateWinningCombinations cat ?g"
  let ?st0 = "\<lparr>cascadeResults = [], currentReels = ?g, vrfOffset = 256, cascadeLevel = 0,
                 totalWinnings_v = Finite 0, currentWins = ?w\<rparr>"
  show ?thesis
  proof (cases "hasWins ?w")
    case False
    with assms have "res = \<lparr>cascades = [], finalReelState = ?g, totalCascades = 0, totalWinnings = Finite 0,
        maxMultiplierReached = 1\<rparr>"
      by (simp add: processCascadingReels_def Let_def)
    then show ?thesis by (simp add: roundsOk_def)
  next
    case True
    let ?p = "calculateTotalPayout (combinations ?w) ?b"
    let ?r = "\<lparr>level = 0, reelState = jsonCopy ?g, winningCombinations = combinations ?w,
               multiplier = cascadeMultipliers ! 0, levelPayout = ?p,
               totalPayout = numberAdd (Finite 0) ?p\<rparr>"
    let ?st1 = "?st0\<lparr>cascadeResults := [?r], totalWinnings_v := numberAdd (Finite 0) ?p\<rparr>"
    from True assms obtain st' where run: "cascadeLoop cat vrfNumber ?b ?st1 = Inr st'"
      and res: "res = \<lparr>cascades = cascadeResults st', finalReelState = currentReels st',
                  totalCascades = length (cascadeResults st'), totalWinnings = totalWinnings_v st',
                  maxMultiplierReached =
                    (if length (cascadeResults st') > 0 then maxMultiplier (cascadeResults st') else 1)\<rparr>"
      by (auto simp: processCascadingReels_def Let_def split: sum.splits)
    have "roundsOk ?b [?r]"
      by (simp add: roundsOk_def cascadeMultipliers_def)
    then have "loopInv ?b ?st1"
      by (simp add: loopInv_def maxCascades_def)
    from cascadeLoop_rounds [OF this run] res show ?thesis
      by (simp add: maxCascades_def)
  qed
qed

subsection \<open>Bits read by the population and by a refill\<close>

text \<open>
  The initial population reads one group of 8 bits for each cell, from offset 18 on, and a
  refill one group of 8 bits for each empty cell, from the offset it is given.
\<close>

lemma populateLoop_offset:
  "populateLoop pool vrfNumber h pos off syms = Inr (syms', off') \<Longrightarrow>
     off' = off + 8 * max 0 (h - pos) \<and> length syms' = length syms + nat (h - pos)"
proof (induction pool vrfNumber h pos off syms rule: populateLoop.induct)
  case (1 pool vrfNumber h pos off syms)
  show ?case
  proof (cases "pos < h")
    case False
    with "1.prems" show ?thesis by (subst (asm) populateLoop.simps) simp
  next
    case True
    with "1.prems" obtain bits where b: "extractBits vrfNumber off 8 = Inr bits"
      and r: "populateLoop pool vrfNumber h (pos + 1) (off + 8) (syms @ [selectSymbol pool bits]) = Inr (syms', off')"
      by (subst (asm) populateLoop.simps) (auto split: sum.splits)
    from "1.IH" [OF True b r] True show ?thesis by (simp add: nat_diff_distrib')
  qed
qed

lemma populateEach_offset:
  "populateEach pool vrfNumber rs off = Inr (rs', off') \<Longrightarrow>
     off' = off + 8 * sum_list (map (\<lambda>reel. max 0 (height reel)) rs)"
proof (induction rs arbitrary: off rs' off')
  case Nil
  then show ?case by simp
next
  case (Cons r rs)
  from Cons.prems obtain syms off1 rest where
    l: "populateLoop pool vrfNumber (height r) 0 off (symbols r) = Inr (syms, off1)"
    and e: "populateEach pool vrfNumber rs off1 = Inr (rest, off')"
    by (auto split: sum.splits prod.splits)
  from populateLoop_offset [OF l] Cons.IH [OF e] show ?case by simp
qed

lemma fillSymbols_offset:
  "fillSymbols pool vrfNumber cs off = Inr (cs', off') \<Longrightarrow>
     off' = off + 8 * int (length (filter (\<lambda>symbol. symbol = Null) cs))"
proof (induction cs arbitrary: off cs' off')
  case Nil
  then show ?case by simp
next
  case (Cons c cs)
  then show ?case
    by (fastforce split: if_splits sum.splits prod.splits)
qed

lemma fillEach_offset:
  "fillEach pool vrfNumber rs off = Inr (rs', off') \<Longrightarrow>
     off' = off + 8 * int (length (filter (\<lambda>symbol. symbol = Null) (concat (map symbols rs))))"
proof (induction rs arbitrary: off rs' off')
  case Nil
  then show ?case by simp
next
  case (Cons r rs)
  from Cons.prems obtain syms off1 rest where
    l: "fillSymbols pool vrfNumber (symbols r) off = Inr (syms, off1)"
    and e: "fillEach pool vrfNumber rs off1 = Inr (rest, off')"
    by (auto split: sum.splits prod.splits)
  from fillSymbols_offset [OF l] Cons.IH [OF e] show ?case by simp
qed

subsection \<open>The example spin, evaluated\<close>

text \<open>
  The spin of the random value \<open>exampleRandom\<close> with a bet of 100: six reels of height 2, all
  cells \<open>diamond_hands\<close>, two winning rounds and two refills.
\<close>

lemma pool_eq:
  "createWeightedSymbolArray newCatalog True [] =
     replicate 45 ''diamond_hands'' @ replicate 40 ''crypto_wallet'' @ replicate 35 ''blockchain_block''
     @ replicate 30 ''defi_token'' @ replicate 25 ''nft_collectible'' @ replicate 22 ''sol''
     @ replicate 18 ''eth'' @ replicate 15 ''btc'' @ replicate 5 ''wild'' @ replicate 3 ''scatter''
     @ replicate 8 ''nft_character''"
  by (simp add: createWeightedSymbolArray_def newCatalog_def initializeSymbolLibrary_def regularSymbol_def)

lemma select_45: "selectSymbol (createWeightedSymbolArray newCatalog True []) 45 = Sym ''crypto_wallet''"
  by (simp add: selectSymbol_def pool_eq smod_int_alt_def nth_append)

lemma select_0: "selectSymbol (createWeightedSymbolArray newCatalog True []) 0 = Sym ''diamond_hands''"
  by (simp add: selectSymbol_def pool_eq smod_int_alt_def nth_append)

lemma BigInt_exampleRandom: "BigInt exampleRandom = Inr (45 * 2 ^ 256)"
  by (simp add: exampleRandom_def BigInt_def StringToBigInt_def trimString_def isStrWhiteSpaceChar_def
      digitsValue_def digitValue_def)

lemma height_bits_example:
  "extractBits exampleRandom 0 3 = Inr 0" "extractBits exampleRandom 3 3 = Inr 0"
  "extractBits exampleRandom 6 3 = Inr 0" "extractBits exampleRandom 9 3 = Inr 0"
  "extractBits exampleRandom 12 3 = Inr 0" "extractBits exampleRandom 15 3 = Inr 0"
  by (simp_all add: extractBits_div_mod [OF BigInt_exampleRandom])

lemma population_bits_example:
  "extractBits exampleRandom 18 8 = Inr 0" "extractBits exampleRandom 26 8 = Inr 0"
  "extractBits exampleRandom 34 8 = Inr 0" "extractBits exampleRandom 42 8 = Inr 0"
  "extractBits exampleRandom 50 8 = Inr 0" "extractBits exampleRandom 58 8 = Inr 0"
  "extractBits exampleRandom 66 8 = Inr 0" "extractBits exampleRandom 74 8 = Inr 0"
  "extractBits exampleRandom 82 8 = Inr 0" "extractBits exampleRandom 90 8 = Inr 0"
  "extractBits exampleRandom 98 8 = Inr 0" "extractBits exampleRandom 106 8 = Inr 0"
  by (simp_all add: extractBits_div_mod [OF BigInt_exampleRandom])

lemma refill_bits_example:
  "extractBits exampleRandom 256 8 = Inr 45" "extractBits exampleRandom 264 8 = Inr 0"
  "extractBits exampleRandom 272 8 = Inr 0" "extractBits exampleRandom 280 8 = Inr 0"
  "extractBits exampleRandom 288 8 = Inr 0" "extractBits exampleRandom 296 8 = Inr 0"
  by (simp_all add: extractBits_div_mod [OF BigInt_exampleRandom])

lemma claimed_bits_example:
  "extractBits exampleRandom 114 8 = Inr 0" "extractBits exampleRandom 162 8 = Inr 0"
  by (simp_all add: extractBits_div_mod [OF BigInt_exampleRandom])

text \<open>The example grid is the grid of the spin.\<close>

lemma example_configuration:
  "generateReelConfiguration exampleRandom =
     Inr (map (\<lambda>i. \<lparr>reelIndex = i, height = 2, symbols = []\<rparr>) [0, 1, 2, 3, 4, 5])"
proof -
  have stop: "generateReelLoop exampleRandom (Suc (Suc (Suc (Suc (Suc (Suc 0)))))) k rs = Inr rs" for k rs
    by (subst generateReelLoop.simps) simp
  have step: "generateReelLoop exampleRandom i k rs =
      generateReelLoop exampleRandom (i + 1) (k + 3) (rs @ [\<lparr>reelIndex = i, height = 2, symbols = []\<rparr>])"
    if "i < 6" "extractBits exampleRandom k 3 = Inr 0" for i k rs
    using that by (subst generateReelLoop.simps) (simp add: smod_int_alt_def)
  show ?thesis
    unfolding generateReelConfiguration_def
    apply (subst step, simp, simp add: height_bits_example)
    apply (subst step, simp, simp add: height_bits_example)
    apply (subst step, simp, simp add: height_bits_example)
    apply (subst step, simp, simp add: height_bits_example)
    apply (subst step, simp, simp add: height_bits_example)
    apply (subst step, simp, simp add: height_bits_example)
    apply (simp add: stop eval_nat_numeral)
    done
qed

lemma populateLoop_example:
  assumes "extractBits exampleRandom k 8 = Inr 0" "extractBits exampleRandom (k + 8) 8 = Inr 0"
  shows "populateLoop (createWeightedSymbolArray newCatalog True []) exampleRandom 2 0 k []
     = Inr ([Sym ''diamond_hands'', Sym ''diamond_hands''], k + 16)"
  apply (subst populateLoop.simps, simp add: assms select_0)
  apply (subst populateLoop.simps, simp add: assms select_0)
  apply (subst populateLoop.simps, simp)
  done

lemma example_population:
  "populateReels newCatalog exampleRandom
     (map (\<lambda>i. \<lparr>reelIndex = i, height = 2, symbols = []\<rparr>) [0, 1, 2, 3, 4, 5]) = Inr exampleGrid"
  by (simp add: populateReels_def jsonCopy_def populateLoop_example population_bits_example
      exampleGrid_def reel2_def)

lemma payout_hands_6:
  "getSymbolPayout newCatalog ''diamond_hands'' (Suc (Suc (Suc (Suc (Suc (Suc 0)))))) = 50"
  by (simp add: getSymbolPayout_def newCatalog_def initializePayoutTables_def payoutsBySize_def
      eval_nat_numeral)

lemmas evalEntry = winningEntries_def findSymbolCombination_def matchesTarget_def
  canSubstitute_wild_newCatalog calculateSymbolPayout_def countWaysForCombination_def Let_def
  payout_hands_6 reel2_def handsAt_def

lemma ways_example:
  "calculateWaysToWin exampleGrid = 64"
  "calculateWaysToWin afterFirstRefill = 64"
  "calculateWaysToWin afterSecondRefill = 64"
  by (simp_all add: calculateWaysToWin_min exampleGrid_def afterFirstRefill_def afterSecondRefill_def reel2_def)

lemma unique_example:
  "getUniqueSymbols exampleGrid = [Sym ''diamond_hands'']"
  "getUniqueSymbols afterFirstRefill = [Sym ''crypto_wallet'', Sym ''diamond_hands'']"
  "getUniqueSymbols afterSecondRefill = [Sym ''crypto_wallet'', Sym ''diamond_hands'']"
  by (simp_all add: getUniqueSymbols_def addUnique_def exampleGrid_def afterFirstRefill_def
      afterSecondRefill_def reel2_def)

lemma entries0:
  "winningEntries newCatalog exampleGrid (Sym ''diamond_hands'') = [firstEntry]"
  by (simp add: exampleGrid_def firstEntry_def evalEntry)

lemma entries1:
  "winningEntries newCatalog afterFirstRefill (Sym ''crypto_wallet'') = []"
  "winningEntries newCatalog afterFirstRefill (Sym ''diamond_hands'') = [secondEntry]"
  by (simp_all add: afterFirstRefill_def secondEntry_def evalEntry)

lemma entries2:
  "winningEntries newCatalog afterSecondRefill (Sym ''crypto_wallet'') = []"
  "winningEntries newCatalog afterSecondRefill (Sym ''diamond_hands'') = []"
  by (simp_all add: afterSecondRefill_def evalEntry)

lemma wins_example:
  "calculateWinningCombinations newCatalog exampleGrid =
     \<lparr>combinations = [firstEntry], totalWaysToWin = 64, hasWins = True\<rparr>"
  "calculateWinningCombinations newCatalog afterFirstRefill =
     \<lparr>combinations = [secondEntry], totalWaysToWin = 64, hasWins = True\<rparr>"
  "calculateWinningCombinations newCatalog afterSecondRefill =
     \<lparr>combinations = [], totalWaysToWin = 64, hasWins = False\<rparr>"
  by (simp_all add: calculateWinningCombinations_def Let_def unique_example entries0 entries1 entries2
      ways_example)

lemma jsonCopy_example:
  "jsonCopy exampleGrid = exampleGrid"
  "jsonCopy afterFirstRefill = afterFirstRefill"
  "jsonCopy afterSecondRefill = afterSecondRefill"
  by (simp_all add: jsonCopy_def jsonCell_def exampleGrid_def afterFirstRefill_def afterSecondRefill_def reel2_def)

lemma refill_first:
  "\<exists>dropped. dropSymbolsDown (removeWinningSymbols exampleGrid [firstEntry]) = Inr dropped
     \<and> generateNewSymbols newCatalog dropped exampleRandom 256 = Inr afterFirstRefill"
proof -
  let ?d = "map (\<lambda>i. emptyTop i ''diamond_hands'') [0, 1, 2, 3, 4, 5]"
  have r: "removeWinningSymbols exampleGrid [firstEntry] = ?d"
    by (simp add: removeWinningSymbols_def jsonCopy_example firstEntry_def handsAt_def Let_def)
       (simp add: exampleGrid_def reel2_def emptyTop_def)
  have d: "dropSymbolsDown ?d = Inr ?d"
    by (simp add: dropSymbolsDown_def jsonCopy_def jsonCell_def dropReel_eq settled_def emptyTop_def)
  have g: "generateNewSymbols newCatalog ?d exampleRandom 256 = Inr afterFirstRefill"
    by (simp add: generateNewSymbols_def jsonCopy_def jsonCell_def emptyTop_def refill_bits_example
        select_45 select_0 afterFirstRefill_def reel2_def)
  from r d g show ?thesis by simp
qed

lemma refill_second:
  "\<exists>dropped. dropSymbolsDown (removeWinningSymbols afterFirstRefill [secondEntry]) = Inr dropped
     \<and> generateNewSymbols newCatalog dropped exampleRandom 256 = Inr afterSecondRefill"
proof -
  let ?r = "\<lparr>reelIndex = 0, height = 2, symbols = [Sym ''crypto_wallet'', Null]\<rparr>
            # map (\<lambda>i. emptyTop i ''diamond_hands'') [1, 2, 3, 4, 5]"
  let ?d = "emptyTop 0 ''crypto_wallet'' # map (\<lambda>i. emptyTop i ''diamond_hands'') [1, 2, 3, 4, 5]"
  have r: "removeWinningSymbols afterFirstRefill [secondEntry] = ?r"
    by (simp add: removeWinningSymbols_def jsonCopy_example secondEntry_def handsAt_def Let_def)
       (simp add: afterFirstRefill_def reel2_def emptyTop_def)
  have d: "dropSymbolsDown ?r = Inr ?d"
    by (simp add: dropSymbolsDown_def jsonCopy_def jsonCell_def dropReel_eq settled_def emptyTop_def)
  have g: "generateNewSymbols newCatalog ?d exampleRandom 256 = Inr afterSecondRefill"
    by (simp add: generateNewSymbols_def jsonCopy_def jsonCell_def emptyTop_def refill_bits_example
        select_45 select_0 afterSecondRefill_def reel2_def)
  from r d g show ?thesis by simp
qed

text \<open>The example spin for any bet amount \<open>b\<close>.\<close>

lemma example_run_bet:
  "processCascadingReels newCatalog exampleGrid exampleRandom (Some b) = Inr
     \<lparr>cascades =
        [\<lparr>level = 0, reelState = exampleGrid, winningCombinations = [firstEntry],
          multiplier = 1,
          levelPayout = calculateTotalPayout [firstEntry] b,
          totalPayout = numberAdd (Finite 0) (calculateTotalPayout [firstEntry] b)\<rparr>,
         \<lparr>level = 1, reelState = afterFirstRefill, winningCombinations = [secondEntry],
          multiplier = 2,
          levelPayout = numberMultiply (calculateTotalPayout [secondEntry] b) (Finite 2),
          totalPayout = numberAdd (numberAdd (Finite 0) (calculateTotalPayout [firstEntry] b))
                          (numberMultiply (calculateTotalPayout [secondEntry] b) (Finite 2))\<rparr>],
      finalReelState = afterSecondRefill, totalCascades = 2,
      totalWinnings = numberAdd (numberAdd (Finite 0) (calculateTotalPayout [firstEntry] b))
                        (numberMultiply (calculateTotalPayout [secondEntry] b) (Finite 2)),
      maxMultiplierReached = 2\<rparr>"
proof -
  from refill_first obtain d1 where
    d1: "dropSymbolsDown (removeWinningSymbols exampleGrid [firstEntry]) = Inr d1"
    and g1: "generateNewSymbols newCatalog d1 exampleRandom 256 = Inr afterFirstRefill"
    by blast
  from refill_second obtain d2 where
    d2: "dropSymbolsDown (removeWinningSymbols afterFirstRefill [secondEntry]) = Inr d2"
    and g2: "generateNewSymbols newCatalog d2 exampleRandom 256 = Inr afterSecondRefill"
    by blast
  have z: "calculateVrfBitsNeeded afterFirstRefill = 0" "calculateVrfBitsNeeded afterSecondRefill = 0"
    by (rule generateNewSymbols_bits_needed [OF g1], rule generateNewSymbols_bits_needed [OF g2])
  have m: "cascadeMultipliers ! 0 = 1" "cascadeMultipliers ! min (Suc 0) (length cascadeMultipliers - Suc 0) = 2"
    by (simp_all add: cascadeMultipliers_def)
  let ?p0 = "calculateTotalPayout [firstEntry] b"
  let ?t0 = "numberAdd (Finite 0) ?p0"
  let ?p1 = "numberMultiply (calculateTotalPayout [secondEntry] b) (Finite 2)"
  let ?t1 = "numberAdd ?t0 ?p1"
  let ?r0 = "\<lparr>level = 0, reelState = exampleGrid, winningCombinations = [firstEntry],
          multiplier = 1, levelPayout = ?p0, totalPayout = ?t0\<rparr>"
  let ?r1 = "\<lparr>level = Suc 0, reelState = afterFirstRefill, winningCombinations = [secondEntry],
          multiplier = 2, levelPayout = ?p1, totalPayout = ?t1\<rparr>"
  let ?st1 = "\<lparr>cascadeResults = [?r0], currentReels = exampleGrid, vrfOffset = 256, cascadeLevel = 0,
                 totalWinnings_v = ?t0,
                 currentWins = \<lparr>combinations = [firstEntry], totalWaysToWin = 64, hasWins = True\<rparr>\<rparr>"
  let ?st2 = "\<lparr>cascadeResults = [?r0, ?r1], currentReels = afterFirstRefill, vrfOffset = 256,
                 cascadeLevel = Suc 0, totalWinnings_v = ?t1,
                 currentWins = \<lparr>combinations = [secondEntry], totalWaysToWin = 64, hasWins = True\<rparr>\<rparr>"
  let ?st3 = "\<lparr>cascadeResults = [?r0, ?r1], currentReels = afterSecondRefill, vrfOffset = 256,
                 cascadeLevel = 2, totalWinnings_v = ?t1,
                 currentWins = \<lparr>combinations = [secondEntry], totalWaysToWin = 64, hasWins = True\<rparr>\<rparr>"
  have l2: "cascadeLoop newCatalog exampleRandom b ?st2 = Inr ?st3"
    by (subst cascadeLoop.simps)
       (simp add: maxCascades_def Let_def d2 g2 z wins_example)
  have l1: "cascadeLoop newCatalog exampleRandom b ?st1 = cascadeLoop newCatalog exampleRandom b ?st2"
    by (subst cascadeLoop.simps)
       (simp add: maxCascades_def Let_def d1 g1 z wins_example m jsonCopy_example)
  show ?thesis
    by (simp add: processCascadingReels_def Let_def jsonCopy_example wins_example m l1 l2 maxMultiplier_def)
qed

text \<open>With the bet 100 no amount is rounded.\<close>

lemma example_run:
  "processCascadingReels newCatalog exampleGrid exampleRandom (Some (Finite 100)) = Inr
     \<lparr>cascades =
        [\<lparr>level = 0, reelState = exampleGrid, winningCombinations = [firstEntry],
          multiplier = 1, levelPayout = Finite 5000, totalPayout = Finite 5000\<rparr>,
         \<lparr>level = 1, reelState = afterFirstRefill, winningCombinations = [secondEntry],
          multiplier = 2, levelPayout = Finite 10000, totalPayout = Finite 15000\<rparr>],
      finalReelState = afterSecondRefill, totalCascades = 2,
      totalWinnings = Finite 15000,
      maxMultiplierReached = 2\<rparr>"
proof -
  have p: "calculateTotalPayout [firstEntry] (Finite 100) = Finite 5000"
    "calculateTotalPayout [secondEntry] (Finite 100) = Finite 5000"
    by (simp_all add: calculateTotalPayout_def firstEntry_def secondEntry_def evalNumber)
  have q: "numberAdd (Finite 0) (Finite 5000) = Finite 5000"
    "numberMultiply (Finite 5000) (Finite 2) = Finite 10000"
    "numberAdd (Finite 5000) (Finite 10000) = Finite 15000"
    by (simp_all add: evalNumber)
  show ?thesis
    unfolding example_run_bet p q by (rule refl)
qed

text \<open>
  With the bet 0.07 the amounts are rounded: the payouts are 3.5000000000000004 and
  7.000000000000001, and their sum is 10.500000000000002.
\<close>

lemma example_run_rounding:
  "processCascadingReels newCatalog exampleGrid exampleRandom (Some (numberValueFor (7 / 100))) = Inr
     \<lparr>cascades =
        [\<lparr>level = 0, reelState = exampleGrid, winningCombinations = [firstEntry],
          multiplier = 1,
          levelPayout = numberValueFor (35000000000000004 / 10 ^ 16),
          totalPayout = numberValueFor (35000000000000004 / 10 ^ 16)\<rparr>,
         \<lparr>level = 1, reelState = afterFirstRefill, winningCombinations = [secondEntry],
          multiplier = 2,
          levelPayout = numberValueFor (7000000000000001 / 10 ^ 15),
          totalPayout = numberValueFor (10500000000000002 / 10 ^ 15)\<rparr>],
      finalReelState = afterSecondRefill, totalCascades = 2,
      totalWinnings = numberValueFor (10500000000000002 / 10 ^ 15),
      maxMultiplierReached = 2\<rparr>"
  "numberValueFor (10500000000000002 / 10 ^ 15) \<noteq> numberValueFor (21 / 2)"
proof -
  have v7: "numberValueFor (7 / 100) = Finite (1261007895663739 / 2 ^ 54)"
    by (subst numberValueFor_normal [of _ 56])
       (simp_all add: roundHalfEven_def Let_def floor_divide_numeral_rat)
  have vp: "numberValueFor (35000000000000004 / 10 ^ 16) = Finite (7881299347898369 / 2 ^ 51)"
    by (subst numberValueFor_normal [of _ 51])
       (simp_all add: roundHalfEven_def Let_def floor_divide_numeral_rat)
  have vq: "numberValueFor (7000000000000001 / 10 ^ 15) = Finite (7881299347898369 / 2 ^ 50)"
    by (subst numberValueFor_normal [of _ 50])
       (simp_all add: roundHalfEven_def Let_def floor_divide_numeral_rat)
  have vt: "numberValueFor (10500000000000002 / 10 ^ 15) = Finite (5910974510923777 / 2 ^ 49)"
    by (subst numberValueFor_normal [of _ 49])
       (simp_all add: roundHalfEven_def Let_def floor_divide_numeral_rat)
  have vh: "numberValueFor (21 / 2) = Finite (21 / 2)"
    by (subst numberValueFor_normal [of _ 49])
       (simp_all add: roundHalfEven_def Let_def floor_divide_numeral_rat)
  have a1: "numberMultiply (Finite 50) (Finite (1261007895663739 / 2 ^ 54)) = Finite (7881299347898369 / 2 ^ 51)"
    by (simp add: numberMultiply_Finite, subst numberValueFor_normal [of _ 51])
       (simp_all add: roundHalfEven_def Let_def floor_divide_numeral_rat)
  have a2: "numberAdd (Finite 0) (Finite (7881299347898369 / 2 ^ 51)) = Finite (7881299347898369 / 2 ^ 51)"
    by (simp add: numberAdd_Finite, subst numberValueFor_normal [of _ 51])
       (simp_all add: roundHalfEven_def Let_def floor_divide_numeral_rat)
  have a3: "numberMultiply (Finite (7881299347898369 / 2 ^ 51)) (Finite 2) = Finite (7881299347898369 / 2 ^ 50)"
    by (simp add: numberMultiply_Finite, subst numberValueFor_normal [of _ 50])
       (simp_all add: roundHalfEven_def Let_def floor_divide_numeral_rat)
  have a4: "numberAdd (Finite (7881299347898369 / 2 ^ 51)) (Finite (7881299347898369 / 2 ^ 50))
      = Finite (5910974510923777 / 2 ^ 49)"
    by (simp add: numberAdd_Finite, subst numberValueFor_normal [of _ 49])
       (simp_all add: roundHalfEven_def Let_def floor_divide_numeral_rat)
  have p: "calculateTotalPayout [firstEntry] (Finite (1261007895663739 / 2 ^ 54)) = Finite (7881299347898369 / 2 ^ 51)"
    "calculateTotalPayout [secondEntry] (Finite (1261007895663739 / 2 ^ 54)) = Finite (7881299347898369 / 2 ^ 51)"
    unfolding calculateTotalPayout_def Let_def firstEntry_def secondEntry_def
    by (simp_all only: foldl.simps combination.select_convs a1 a2)
  show "processCascadingReels newCatalog exampleGrid exampleRandom (Some (numberValueFor (7 / 100))) = Inr
     \<lparr>cascades =
        [\<lparr>level = 0, reelState = exampleGrid, winningCombinations = [firstEntry],
          multiplier = 1,
          levelPayout = numberValueFor (35000000000000004 / 10 ^ 16),
          totalPayout = numberValueFor (35000000000000004 / 10 ^ 16)\<rparr>,
         \<lparr>level = 1, reelState = afterFirstRefill, winningCombinations = [secondEntry],
          multiplier = 2,
          levelPayout = numberValueFor (7000000000000001 / 10 ^ 15),
          totalPayout = numberValueFor (10500000000000002 / 10 ^ 15)\<rparr>],
      finalReelState = afterSecondRefill, totalCascades = 2,
      totalWinnings = numberValueFor (10500000000000002 / 10 ^ 15),
      maxMultiplierReached = 2\<rparr>"
    unfolding example_run_bet v7 vp vq vt p a2 a3 a4 by (rule refl)
  show "numberValueFor (10500000000000002 / 10 ^ 15) \<noteq> numberValueFor (21 / 2)"
    unfolding vt vh by simp
qed

lemma wellFormedHex_exampleRandom: "wellFormedHex exampleRandom"
  by (simp add: wellFormedHex_def exampleRandom_def isHexDigit_def digitValue_def)

lemma arrayHeights_exampleGrid: "arrayHeights exampleGrid"
  by (simp add: arrayHeights_def exampleGrid_def reel2_def)

subsection \<open>Claim C2: number of rounds and multipliers\<close>

text \<open>
  C2: for every catalog, initial grid, random value and bet amount,
  \<open>processCascadingReels\<close> returns whenever the random value is well-formed and the
  heights are array lengths, and whenever it returns, it has recorded at most 7 rounds;
  the round at index \<open>i\<close> has level \<open>i\<close>, so that there is at most one round of level 0
  and at most 6 cascade rounds; every round of level \<open>L\<close> has the multiplier
  \<open>[1, 2, 3, 5, 8, 12, 20][min(L, 6)]\<close>, and the round of level 0 the multiplier 1.
\<close>

theorem processCascadingReels_round_limit:
  "(wellFormedHex vrfNumber \<and> arrayHeights initialReelResult \<longrightarrow>
      (\<exists>res. processCascadingReels cat initialReelResult vrfNumber betAmount = Inr res))
   \<and> (\<forall>res. processCascadingReels cat initialReelResult vrfNumber betAmount = Inr res \<longrightarrow>
         length (cascades res) \<le> 7 \<and> totalCascades res = length (cascades res)
       \<and> (\<forall>i < length (cascades res). level (cascades res ! i) = i)
       \<and> (\<forall>r \<in> set (cascades res).
             multiplier r = [1, 2, 3, 5, 8, 12, 20] ! min (level r) 6
           \<and> (level r = 0 \<longrightarrow> multiplier r = 1)))"
proof (intro conjI impI allI ballI)
  assume "wellFormedHex vrfNumber \<and> arrayHeights initialReelResult"
  then have "BigInt vrfNumber = Inr (uint vrfNumber)" "arrayHeights initialReelResult"
    by (simp_all add: wellFormedHex_BigInt)
  then show "\<exists>res. processCascadingReels cat initialReelResult vrfNumber betAmount = Inr res"
    by (rule processCascadingReels_total)
next
  fix res assume r: "processCascadingReels cat initialReelResult vrfNumber betAmount = Inr res"
  let ?b = "case betAmount of None \<Rightarrow> Finite 1 | Some b \<Rightarrow> b"
  from processCascadingReels_rounds [OF r]
  have len: "length (cascades res) \<le> 7" and tc: "totalCascades res = length (cascades res)"
    and ok: "roundsOk ?b (cascades res)"
    by simp_all
  show "length (cascades res) \<le> 7" by (rule len)
  show "totalCascades res = length (cascades res)" by (rule tc)
  {
    fix i assume "i < length (cascades res)"
    with roundsOk_nth [OF ok] show "level (cascades res ! i) = i" by blast
  }
  {
    fix r assume "r \<in> set (cascades res)"
    then obtain i where i: "i < length (cascades res)" and ri: "cascades res ! i = r"
      by (auto simp: in_set_conv_nth)
    from roundsOk_nth [OF ok i] ri
    have l: "level r = i" and m: "multiplier r = cascadeMultipliers ! min i 6" by auto
    from l m show "multiplier r = [1, 2, 3, 5, 8, 12, 20] ! min (level r) 6"
      by (simp add: cascadeMultipliers_def)
    {
      assume "level r = 0"
      with l m show "multiplier r = 1" by (simp add: cascadeMultipliers_def)
    }
  }
qed

theorem processCascadingReels_round_limit_witness:
  "wellFormedHex exampleRandom \<and> arrayHeights exampleGrid
   \<and> (\<exists>res. processCascadingReels newCatalog exampleGrid exampleRandom (Some (Finite 100)) = Inr res
          \<and> length (cascades res) = 2 \<and> map level (cascades res) = [0, 1]
          \<and> map multiplier (cascades res) = [1, 2])"
  using processCascadingReels_round_limit [of exampleRandom exampleGrid newCatalog "Some (Finite 100)"]
    wellFormedHex_exampleRandom arrayHeights_exampleGrid example_run
  by simp

subsection \<open>Claim C9: the total is the sum of the level payouts\<close>

text \<open>
  Amounts are rounded where the code rounds them: with two combinations of base payouts
  0.75 and 1.5 and the bet 0.1, \<open>calculateTotalPayout\<close> is 0.22500000000000003, which is
  not the Number value of 0.225.
\<close>

lemma tenth: "numberValueFor (1 / 10) = Finite (3602879701896397 / 2 ^ 55)"
  by (subst numberValueFor_normal [of _ 56])
     (simp_all add: roundHalfEven_def Let_def floor_divide_numeral_rat)

lemma calculateTotalPayout_rounds:
  "calculateTotalPayout
     [\<lparr>symbol_c = Sym ''crypto_wallet'', length_c = 3, positions = ps, basePayout = 3 / 4, waysCount = 1\<rparr>,
      \<lparr>symbol_c = Sym ''defi_token'', length_c = 3, positions = qs, basePayout = 3 / 2, waysCount = 1\<rparr>]
     (numberValueFor (1 / 10))
   = numberValueFor (22500000000000003 / 10 ^ 17)"
  "numberValueFor (22500000000000003 / 10 ^ 17) \<noteq> numberValueFor (9 / 40)"
proof -
  have a: "numberMultiply (Finite (3 / 4)) (Finite (3602879701896397 / 2 ^ 55))
      = Finite (5404319552844596 / 2 ^ 56)"
    by (simp add: numberMultiply_Finite, subst numberValueFor_normal [of _ 56])
       (simp_all add: roundHalfEven_def Let_def floor_divide_numeral_rat)
  have b: "numberMultiply (Finite (3 / 2)) (Finite (3602879701896397 / 2 ^ 55))
      = Finite (5404319552844596 / 2 ^ 55)"
    by (simp add: numberMultiply_Finite, subst numberValueFor_normal [of _ 55])
       (simp_all add: roundHalfEven_def Let_def floor_divide_numeral_rat)
  have c: "numberAdd (Finite 0) (Finite (5404319552844596 / 2 ^ 56)) = Finite (5404319552844596 / 2 ^ 56)"
    by (simp add: numberAdd_Finite, subst numberValueFor_normal [of _ 56])
       (simp_all add: roundHalfEven_def Let_def floor_divide_numeral_rat)
  have d: "numberAdd (Finite (5404319552844596 / 2 ^ 56)) (Finite (5404319552844596 / 2 ^ 55))
      = Finite (8106479329266894 / 2 ^ 55)"
    by (simp add: numberAdd_Finite, subst numberValueFor_normal [of _ 55])
       (simp_all add: roundHalfEven_def Let_def floor_divide_numeral_rat)
  have e: "numberValueFor (22500000000000003 / 10 ^ 17) = Finite (8106479329266894 / 2 ^ 55)"
    by (subst numberValueFor_normal [of _ 55])
       (simp_all add: roundHalfEven_def Let_def floor_divide_numeral_rat)
  have f: "numberValueFor (9 / 40) = Finite (8106479329266893 / 2 ^ 55)"
    by (subst numberValueFor_normal [of _ 55])
       (simp_all add: roundHalfEven_def Let_def floor_divide_numeral_rat)
  show "calculateTotalPayout
     [\<lparr>symbol_c = Sym ''crypto_wallet'', length_c = 3, positions = ps, basePayout = 3 / 4, waysCount = 1\<rparr>,
      \<lparr>symbol_c = Sym ''defi_token'', length_c = 3, positions = qs, basePayout = 3 / 2, waysCount = 1\<rparr>]
     (numberValueFor (1 / 10))
   = numberValueFor (22500000000000003 / 10 ^ 17)"
    unfolding calculateTotalPayout_def Let_def tenth e
    by (simp only: foldl.simps combination.select_convs a b c d)
  show "numberValueFor (22500000000000003 / 10 ^ 17) \<noteq> numberValueFor (9 / 40)"
    unfolding e f by simp
qed

text \<open>
  C9: for every catalog, initial grid, random value and bet amount (any Number, also an
  infinity or \<open>NaN\<close>), the \<open>totalWinnings\<close> that \<open>processCascadingReels\<close> returns is the
  sum of the \<open>levelPayout\<close> fields of the recorded rounds, and the \<open>totalPayout\<close> of each
  round is the sum of the level payouts up to and including that round. The sums are
  those of the rounding addition of Numbers, formed as the code forms them: from 0,
  adding the payouts in the order of the rounds. The \<open>levelPayout\<close> of the round of level
  0 is the total payout of its winning combinations at the bet amount, and its multiplier
  is 1; the \<open>levelPayout\<close> of every later round is the total payout of its winning
  combinations times its multiplier.
\<close>

theorem processCascadingReels_total_is_sum:
  assumes "processCascadingReels cat initialReelResult vrfNumber betAmount = Inr res"
  shows "totalWinnings res = foldl numberAdd (Finite 0) (map levelPayout (cascades res))
       \<and> (\<forall>i < length (cascades res).
             totalPayout (cascades res ! i)
               = foldl numberAdd (Finite 0) (map levelPayout (take (Suc i) (cascades res)))
           \<and> levelPayout (cascades res ! i)
               = (if i = 0
                  then calculateTotalPayout (winningCombinations (cascades res ! i))
                         (case betAmount of None \<Rightarrow> Finite 1 | Some b \<Rightarrow> b)
                  else numberMultiply
                         (calculateTotalPayout (winningCombinations (cascades res ! i))
                            (case betAmount of None \<Rightarrow> Finite 1 | Some b \<Rightarrow> b))
                         (Finite (multiplier (cascades res ! i))))
           \<and> (i = 0 \<longrightarrow> multiplier (cascades res ! i) = 1))"
proof -
  let ?b = "case betAmount of None \<Rightarrow> Finite 1 | Some b \<Rightarrow> b"
  from processCascadingReels_rounds [OF assms]
  have ok: "roundsOk ?b (cascades res)"
    and tw: "totalWinnings res = foldl numberAdd (Finite 0) (map levelPayout (cascades res))"
    by simp_all
  have "multiplier (cascades res ! i) = 1" if "i < length (cascades res)" "i = 0" for i
    using roundsOk_nth [OF ok that(1)] that(2) by (simp add: cascadeMultipliers_def)
  with roundsOk_nth [OF ok] tw show ?thesis by blast
qed

theorem processCascadingReels_total_is_sum_witness:
  "\<exists>res. processCascadingReels newCatalog exampleGrid exampleRandom (Some (numberValueFor (7 / 100))) = Inr res
      \<and> map levelPayout (cascades res)
          = [numberValueFor (35000000000000004 / 10 ^ 16), numberValueFor (7000000000000001 / 10 ^ 15)]
      \<and> totalWinnings res = numberValueFor (10500000000000002 / 10 ^ 15)
      \<and> totalWinnings res = foldl numberAdd (Finite 0) (map levelPayout (cascades res))
      \<and> map totalPayout (cascades res)
          = [numberValueFor (35000000000000004 / 10 ^ 16), numberValueFor (10500000000000002 / 10 ^ 15)]
      \<and> totalWinnings res \<noteq> numberValueFor (21 / 2)"
  using processCascadingReels_total_is_sum [OF example_run_rounding(1)] example_run_rounding
  by simp

subsection \<open>Claim C1: the refills do not continue the running offset\<close>

text \<open>
  C1 says that the first refill reads at bit offset \<open>18 + 8 * (sum of the heights)\<close>, where
  the initial population ends (lemma \<open>populateEach_offset\<close>), and that every later refill
  continues where the one before stopped. Within one refill the cells do take consecutive
  groups of 8 bits (lemma \<open>fillEach_offset\<close>), but the code does neither of the two:
  \<open>vrfOffset\<close> starts at the constant 256, and the bits it adds after a refill are counted
  on the grid that has just been refilled, which has no empty cell, so that every refill
  starts at offset 256 (lemmas \<open>generateNewSymbols_bits_needed\<close> and
  \<open>cascadeLoop_vrfOffset\<close>). In the example spin the heights sum to 12, so that C1 puts
  the first refill at offset 114 and the second, after six refilled cells, at offset 162.
  The random value has 0 there, which selects \<open>diamond_hands\<close>, and 45 at offset 256,
  which selects \<open>crypto_wallet\<close>. The spin ends after two rounds, and both cells of reel
  0, each the first cell of a refill, hold \<open>crypto_wallet\<close>.
\<close>

theorem refill_offset_not_advanced:
  "(case generateReelConfiguration exampleRandom of
      Inl e \<Rightarrow> Inl e
    | Inr reelConfig \<Rightarrow> populateReels newCatalog exampleRandom reelConfig) = Inr exampleGrid
   \<and> map_sum id (\<lambda>res. (totalCascades res, finalReelState res))
        (processCascadingReels newCatalog exampleGrid exampleRandom (Some (Finite 100)))
      = Inr (2, afterSecondRefill)
   \<and> symbols (afterSecondRefill ! 0) = [Sym ''crypto_wallet'', Sym ''crypto_wallet'']
   \<and> map_sum id (selectSymbol (createWeightedSymbolArray newCatalog True []))
        (extractBits exampleRandom 256 8) = Inr (Sym ''crypto_wallet'')
   \<and> 18 + 8 * sum_list (map height exampleGrid) = 114
   \<and> map_sum id (selectSymbol (createWeightedSymbolArray newCatalog True []))
        (extractBits exampleRandom 114 8) = Inr (Sym ''diamond_hands'')
   \<and> map_sum id (selectSymbol (createWeightedSymbolArray newCatalog True []))
        (extractBits exampleRandom (114 + 6 * 8) 8) = Inr (Sym ''diamond_hands'')"
proof -
  have s: "(case generateReelConfiguration exampleRandom of
      Inl e \<Rightarrow> Inl e
    | Inr reelConfig \<Rightarrow> populateReels newCatalog exampleRandom reelConfig) = Inr exampleGrid"
    by (simp only: example_configuration sum.case example_population)
  have a: "map_sum id (\<lambda>res. (totalCascades res, finalReelState res))
       (processCascadingReels newCatalog exampleGrid exampleRandom (Some (Finite 100)))
     = Inr (2, afterSecondRefill)"
    by (simp add: example_run)
  have b: "symbols (afterSecondRefill ! 0) = [Sym ''crypto_wallet'', Sym ''crypto_wallet'']"
    by (simp add: afterSecondRefill_def reel2_def)
  have c: "18 + 8 * sum_list (map height exampleGrid) = 114"
    by (simp add: exampleGrid_def reel2_def)
  from s a b c show ?thesis
    by (simp add: refill_bits_example claimed_bits_example select_45 select_0)
qed

end
